theory Spec2Isabelle
  imports Main "HOL-Library.Word" "HOL-Library.Sublist"
begin

unbundle bit_operations_syntax

chapter \<open>The Linux process backend of Gum (gumprocess-linux.c)\<close>

text \<open>
  A shallow embedding of \<^verbatim>\<open>src/gum/backend-linux/gumprocess-linux.c\<close> as built for
  x86-64 (\<^verbatim>\<open>GLIB_SIZEOF_VOID_P == 8\<close>), with the x86-32 register bank of the marshaller
  modelled beside it. C integers are words of their width; a C struct is a record; memory
  the code reads through pointers is a record of typed accessors; what the kernel and libc
  answer (system call results, the contents of /proc) is an explicit environment.
\<close>

section \<open>CPU contexts and the marshaller\<close>

type_synonym GumAddress = "64 word"
type_synonym GumThreadId = nat

text \<open>
  The indices of \<^verbatim>\<open>uc_mcontext.gregs\<close> (\<^verbatim>\<open>sys/ucontext.h\<close>), for x86-64 and for
  x86-32; the array \<^verbatim>\<open>gregs\<close> is a function from its indices.
\<close>

datatype greg =
    REG_R8 | REG_R9 | REG_R10 | REG_R11 | REG_R12 | REG_R13 | REG_R14 | REG_R15
  | REG_RDI | REG_RSI | REG_RBP | REG_RBX | REG_RDX | REG_RAX | REG_RCX | REG_RSP
  | REG_RIP | REG_EFL | REG_CSGSFS | REG_ERR | REG_TRAPNO | REG_OLDMASK | REG_CR2

datatype greg32 =
    REG_GS | REG_FS | REG_ES | REG_DS | REG_EDI | REG_ESI | REG_EBP | REG_ESP
  | REG_EBX | REG_EDX | REG_ECX | REG_EAX | REG_TRAPNO32 | REG_ERR32 | REG_EIP
  | REG_CS | REG_EFL32 | REG_UESP | REG_SS

type_synonym gregset = "greg \<Rightarrow> 64 word"
type_synonym gregset32 = "greg32 \<Rightarrow> 32 word"

text \<open>
  \<^verbatim>\<open>ucontext_t\<close>: the general registers, and everything else the kernel keeps in it
  (signal mask, alternate stack, floating-point state), which this file never touches.
\<close>

record ucontext_t =
  uc_gregs :: gregset
  uc_other :: nat

record ucontext32_t =
  uc_gregs32 :: gregset32
  uc_other32 :: nat

record GumCpuContext =
  rip :: "64 word"
  r15 :: "64 word"
  r14 :: "64 word"
  r13 :: "64 word"
  r12 :: "64 word"
  r11 :: "64 word"
  r10 :: "64 word"
  r9 :: "64 word"
  r8 :: "64 word"
  rdi :: "64 word"
  rsi :: "64 word"
  rbp :: "64 word"
  rsp :: "64 word"
  rbx :: "64 word"
  rdx :: "64 word"
  rcx :: "64 word"
  rax :: "64 word"

record GumCpuContext32 =
  eip :: "32 word"
  edi :: "32 word"
  esi :: "32 word"
  ebp :: "32 word"
  esp :: "32 word"
  ebx :: "32 word"
  edx :: "32 word"
  ecx :: "32 word"
  eax :: "32 word"

text \<open>
  \<^verbatim>\<open>gum_cpu_context_from_linux (uc, ctx)\<close> assigns every field of \<^verbatim>\<open>*ctx\<close>, so the
  context it leaves is a function of \<^verbatim>\<open>uc\<close> alone.
\<close>

definition gum_cpu_context_from_linux :: "ucontext_t \<Rightarrow> GumCpuContext" where
  "gum_cpu_context_from_linux uc =
     (let gr = uc_gregs uc in
      \<lparr> rip = gr REG_RIP,
        r15 = gr REG_R15, r14 = gr REG_R14, r13 = gr REG_R13, r12 = gr REG_R12,
        r11 = gr REG_R11, r10 = gr REG_R10, r9 = gr REG_R9, r8 = gr REG_R8,
        rdi = gr REG_RDI, rsi = gr REG_RSI, rbp = gr REG_RBP, rsp = gr REG_RSP,
        rbx = gr REG_RBX, rdx = gr REG_RDX, rcx = gr REG_RCX, rax = gr REG_RAX \<rparr>)"

text \<open>
  \<^verbatim>\<open>gum_cpu_context_to_linux (ctx, uc)\<close> stores the seventeen registers into
  \<^verbatim>\<open>uc->uc_mcontext.gregs\<close>, in the order of the source, and leaves the rest of
  \<^verbatim>\<open>*uc\<close> as it was.
\<close>

definition gum_cpu_context_to_linux :: "GumCpuContext \<Rightarrow> ucontext_t \<Rightarrow> ucontext_t" where
  "gum_cpu_context_to_linux ctx uc =
     uc \<lparr> uc_gregs := (uc_gregs uc)
       (REG_RIP := rip ctx,
        REG_R15 := r15 ctx, REG_R14 := r14 ctx, REG_R13 := r13 ctx, REG_R12 := r12 ctx,
        REG_R11 := r11 ctx, REG_R10 := r10 ctx, REG_R9 := r9 ctx, REG_R8 := r8 ctx,
        REG_RDI := rdi ctx, REG_RSI := rsi ctx, REG_RBP := rbp ctx, REG_RSP := rsp ctx,
        REG_RBX := rbx ctx, REG_RDX := rdx ctx, REG_RCX := rcx ctx, REG_RAX := rax ctx) \<rparr>"

text \<open>The same two functions as compiled for x86-32 (\<^verbatim>\<open>GLIB_SIZEOF_VOID_P == 4\<close>).\<close>

definition gum_cpu_context_from_linux32 :: "ucontext32_t \<Rightarrow> GumCpuContext32" where
  "gum_cpu_context_from_linux32 uc =
     (let gr = uc_gregs32 uc in
      \<lparr> eip = gr REG_EIP,
        edi = gr REG_EDI, esi = gr REG_ESI, ebp = gr REG_EBP, esp = gr REG_ESP,
        ebx = gr REG_EBX, edx = gr REG_EDX, ecx = gr REG_ECX, eax = gr REG_EAX \<rparr>)"

definition gum_cpu_context_to_linux32 :: "GumCpuContext32 \<Rightarrow> ucontext32_t \<Rightarrow> ucontext32_t" where
  "gum_cpu_context_to_linux32 ctx uc =
     uc \<lparr> uc_gregs32 := (uc_gregs32 uc)
       (REG_EIP := eip ctx,
        REG_EDI := edi ctx, REG_ESI := esi ctx, REG_EBP := ebp ctx, REG_ESP := esp ctx,
        REG_EBX := ebx ctx, REG_EDX := edx ctx, REG_ECX := ecx ctx, REG_EAX := eax ctx) \<rparr>"

section \<open>The thread context broker\<close>

text \<open>
  The process-global state of \<^verbatim>\<open>gum_process_modify_thread\<close>: the lock declared by
  \<^verbatim>\<open>G_LOCK_DEFINE_STATIC (gum_modify_thread)\<close>, the three volatile flags, the shared
  context buffer, and the action the process has installed for
  \<^verbatim>\<open>GUM_HIJACK_SIGNAL\<close>. Beside them stand the machine context of every thread (what
  \<^verbatim>\<open>getcontext\<close> saves for the caller, and what the kernel hands to a signal handler of
  a target), the visitor's \<^verbatim>\<open>user_data\<close>, and a log of the calls the function makes.
\<close>

datatype sighandler = SIG_DFL | SIG_IGN | Handler_gum_do_modify_thread | Handler_other nat

record sigaction =
  sa_sigaction :: sighandler
  sa_mask :: "nat set"
  sa_flags :: "32 word"

definition SA_SIGINFO :: "32 word" where
  "SA_SIGINFO = 4"

datatype event =
    Ev_getcontext
  | Ev_setcontext ucontext_t
  | Ev_visit GumThreadId GumCpuContext
  | Ev_lock
  | Ev_unlock
  | Ev_sigaction sigaction
  | Ev_tgkill GumThreadId

record 'u process =
  lock_owner :: "GumThreadId option"
  gum_modify_thread_did_load_cpu_context :: bool
  gum_modify_thread_did_modify_cpu_context :: bool
  gum_modify_thread_did_store_cpu_context :: bool
  gum_modify_thread_cpu_context :: GumCpuContext
  hijack_action :: sigaction
  thread_uc :: "GumThreadId \<Rightarrow> ucontext_t"
  user_data :: 'u
  trace :: "event list"

text \<open>
  What the kernel answers: the caller's thread id (\<^verbatim>\<open>syscall (SYS_gettid)\<close>), the result
  of \<^verbatim>\<open>syscall (SYS_tgkill, getpid (), thread_id, GUM_HIJACK_SIGNAL)\<close> for each target, and
  whether a target that was signalled gets to run the handler (a thread that keeps the
  signal blocked never does).
\<close>

record kernel =
  sys_gettid :: GumThreadId
  sys_tgkill :: "GumThreadId \<Rightarrow> int"
  runs_handler :: "GumThreadId \<Rightarrow> bool"

text \<open>
  A visitor (\<^verbatim>\<open>GumModifyThreadFunc\<close>) receives the thread id, a pointer to the context,
  which it may overwrite, and \<^verbatim>\<open>user_data\<close>. It returns the context and the user data as
  it leaves them.
\<close>

type_synonym 'u GumModifyThreadFunc =
  "GumThreadId \<Rightarrow> GumCpuContext \<Rightarrow> 'u \<Rightarrow> GumCpuContext \<times> 'u"

text \<open>
  How a call ends: it returns its \<^verbatim>\<open>gboolean\<close>; or \<^verbatim>\<open>setcontext\<close> has moved the
  thread to another instruction, so that the rest of the function is not executed; or the
  caller waits (for the lock, or in a busy-wait) for something no other thread does.
\<close>

datatype outcome = Returns bool | Resumes_at "64 word" | Blocked

definition log_event :: "event \<Rightarrow> 'u process \<Rightarrow> 'u process" where
  "log_event e s = s \<lparr> trace := trace s @ [e] \<rparr>"

definition gum_process_get_current_thread_id :: "kernel \<Rightarrow> GumThreadId" where
  "gum_process_get_current_thread_id k = sys_gettid k"

text \<open>
  \<^verbatim>\<open>setcontext (&uc)\<close> continues at the instruction pointer of \<^verbatim>\<open>uc\<close>. The instruction
  pointer of a context saved by \<^verbatim>\<open>getcontext\<close> is the return address of that call: the
  context the visitor has edited continues at the statement after \<^verbatim>\<open>getcontext (&uc)\<close>
  exactly when its instruction pointer is the saved one. Nothing else of the context
  decides where the thread continues.
\<close>

definition resumes_after_getcontext :: "ucontext_t \<Rightarrow> ucontext_t \<Rightarrow> bool" where
  "resumes_after_getcontext saved uc \<longleftrightarrow> uc_gregs uc REG_RIP = uc_gregs saved REG_RIP"

text \<open>
  The same-thread branch from the statement after \<^verbatim>\<open>getcontext (&uc)\<close> on. The code is
  entered there twice: when \<^verbatim>\<open>getcontext\<close> returns, with \<^verbatim>\<open>modified\<close> FALSE, and when
  \<^verbatim>\<open>setcontext\<close> resumes the saved context, with whatever the volatile local
  \<^verbatim>\<open>modified\<close> then holds in memory (\<^verbatim>\<open>setcontext\<close> restores registers, not the stack's
  contents). The first argument is that value; \<^verbatim>\<open>saved\<close> is the context as captured, and
  \<^verbatim>\<open>uc\<close> is the local variable of that name. The second entry tests \<^verbatim>\<open>modified\<close> and
  nothing else.

  The call of \<^verbatim>\<open>setcontext\<close> is logged with its argument. Which registers the C library
  loads from that argument, and what the thread's registers hold afterwards, is not
  followed: on this branch \<^verbatim>\<open>thread_uc\<close> is read, by \<^verbatim>\<open>getcontext\<close>, and never written.
\<close>

function after_getcontext ::
  "bool \<Rightarrow> GumThreadId \<Rightarrow> 'u GumModifyThreadFunc \<Rightarrow> ucontext_t \<Rightarrow> ucontext_t \<Rightarrow>
   'u process \<Rightarrow> outcome \<times> 'u process" where
  "after_getcontext modified thread_id func saved uc s =
     (if \<not> modified then
        (let cpu_context = gum_cpu_context_from_linux uc;
             (cpu_context', u') = func thread_id cpu_context (user_data s);
             s1 = log_event (Ev_visit thread_id cpu_context) (s \<lparr> user_data := u' \<rparr>);
             uc' = gum_cpu_context_to_linux cpu_context' uc;
             s2 = log_event (Ev_setcontext uc') s1
         in if resumes_after_getcontext saved uc'
            then after_getcontext True thread_id func saved uc' s2
            else (Resumes_at (uc_gregs uc' REG_RIP), s2))
      else (Returns True, s))"
  by pat_completeness auto
termination
  by (relation "measure (\<lambda>(modified, _). if modified then 0 else 1)") auto

text \<open>
  The signal handler \<^verbatim>\<open>gum_do_modify_thread\<close>, run by the target thread on the machine
  context the kernel delivers to it, in two halves: up to its busy-wait on
  \<^verbatim>\<open>did_modify_cpu_context\<close>, and from there to its return.
\<close>

definition gum_do_modify_thread_load :: "GumThreadId \<Rightarrow> 'u process \<Rightarrow> 'u process" where
  "gum_do_modify_thread_load target s =
     s \<lparr> gum_modify_thread_cpu_context := gum_cpu_context_from_linux (thread_uc s target),
         gum_modify_thread_did_load_cpu_context := True \<rparr>"

definition gum_do_modify_thread_store :: "GumThreadId \<Rightarrow> 'u process \<Rightarrow> 'u process" where
  "gum_do_modify_thread_store target s =
     s \<lparr> thread_uc := (thread_uc s)
           (target := gum_cpu_context_to_linux (gum_modify_thread_cpu_context s)
                        (thread_uc s target)),
         gum_modify_thread_did_store_cpu_context := True \<rparr>"

text \<open>
  The requester's side of a rendezvous, after \<^verbatim>\<open>tgkill\<close> has returned 0. The two
  busy-waits order the steps of the two threads: the handler publishes the context and
  sets \<^verbatim>\<open>did_load\<close>; the requester calls the visitor on the shared buffer and sets
  \<^verbatim>\<open>did_modify\<close>; the handler writes the buffer back and sets \<^verbatim>\<open>did_store\<close>. A
  busy-wait whose flag is never set does not end (\<^verbatim>\<open>None\<close>).
\<close>

definition rendezvous ::
  "kernel \<Rightarrow> GumThreadId \<Rightarrow> 'u GumModifyThreadFunc \<Rightarrow> 'u process \<Rightarrow> 'u process option" where
  "rendezvous k thread_id func s =
     (let s1 = (if runs_handler k thread_id then gum_do_modify_thread_load thread_id s else s)
      in if \<not> gum_modify_thread_did_load_cpu_context s1 then None
         else
           (let (cpu_context', u') =
                  func thread_id (gum_modify_thread_cpu_context s1) (user_data s1);
                s2 = log_event (Ev_visit thread_id (gum_modify_thread_cpu_context s1))
                       (s1 \<lparr> gum_modify_thread_cpu_context := cpu_context', user_data := u' \<rparr>);
                s3 = s2 \<lparr> gum_modify_thread_did_modify_cpu_context := True \<rparr>;
                s4 = (if runs_handler k thread_id then gum_do_modify_thread_store thread_id s3
                      else s3)
            in if \<not> gum_modify_thread_did_store_cpu_context s4 then None else Some s4))"

definition gum_process_modify_thread ::
  "kernel \<Rightarrow> GumThreadId \<Rightarrow> 'u GumModifyThreadFunc \<Rightarrow> 'u process \<Rightarrow> outcome \<times> 'u process" where
  "gum_process_modify_thread k thread_id func s =
     (if thread_id = gum_process_get_current_thread_id k then
        (let uc = thread_uc s thread_id;
             s1 = log_event Ev_getcontext s
         in after_getcontext False thread_id func uc uc s1)
      else
        (case lock_owner s of
           Some _ \<Rightarrow> (Blocked, s)
         | None \<Rightarrow>
            (let s1 = log_event Ev_lock (s \<lparr> lock_owner := Some (sys_gettid k) \<rparr>);
                 s2 = s1 \<lparr> gum_modify_thread_did_load_cpu_context := False,
                           gum_modify_thread_did_modify_cpu_context := False,
                           gum_modify_thread_did_store_cpu_context := False \<rparr>;
                 action = \<lparr> sa_sigaction = Handler_gum_do_modify_thread, sa_mask = {},
                            sa_flags = SA_SIGINFO \<rparr>;
                 old_action = hijack_action s2;
                 s3 = log_event (Ev_sigaction action) (s2 \<lparr> hijack_action := action \<rparr>);
                 s4 = log_event (Ev_tgkill thread_id) s3;
                 restore = (\<lambda>t. log_event Ev_unlock
                              ((log_event (Ev_sigaction old_action)
                                  (t \<lparr> hijack_action := old_action \<rparr>))
                               \<lparr> lock_owner := None \<rparr>))
             in if sys_tgkill k thread_id = 0 then
                  (case rendezvous k thread_id func s4 of
                     None \<Rightarrow> (Blocked, s4)
                   | Some s5 \<Rightarrow> (Returns True, restore s5))
                else (Returns False, restore s4))))"

section \<open>Reading the lines of a maps file\<close>

text \<open>
  The enumerators read \<^verbatim>\<open>/proc/<pid>/maps\<close> line by line with \<^verbatim>\<open>fgets\<close> and take
  each line apart with \<^verbatim>\<open>sscanf\<close>. A maps file is the list of strings the successive
  calls of \<^verbatim>\<open>fgets\<close> return (\<^verbatim>\<open>None\<close> when \<^verbatim>\<open>fopen\<close> fails). The scanner below
  follows the C library for the directives the two format strings use: a numeric or
  \<^verbatim>\<open>%s\<close> directive skips white space first; \<^verbatim>\<open>%x\<close> and \<^verbatim>\<open>%p\<close> read an optional
  sign, an optional \<^verbatim>\<open>0x\<close> and hexadecimal digits, with the value of \<^verbatim>\<open>strtoul\<close>;
  \<^verbatim>\<open>%s\<close> reads up to the next white space, and at most as many characters as its width;
  any other character of the format must be the next character of the input.
\<close>

type_synonym maps_file = "string list option"

definition isspace :: "char \<Rightarrow> bool" where
  "isspace c \<longleftrightarrow>
     c = CHR '' '' \<or> c = CHR 0x09 \<or> c = CHR 0x0A \<or> c = CHR 0x0B \<or> c = CHR 0x0C \<or> c = CHR 0x0D"

definition xdigit_value :: "char \<Rightarrow> nat option" where
  "xdigit_value c =
     (let n = (of_char c :: nat) in
      if 48 \<le> n \<and> n \<le> 57 then Some (n - 48)
      else if 97 \<le> n \<and> n \<le> 102 then Some (n - 87)
      else if 65 \<le> n \<and> n \<le> 70 then Some (n - 55)
      else None)"

definition isxdigit :: "char \<Rightarrow> bool" where
  "isxdigit c \<longleftrightarrow> xdigit_value c \<noteq> None"

definition hex_value :: "string \<Rightarrow> nat" where
  "hex_value ds = foldl (\<lambda>v c. 16 * v + (case xdigit_value c of Some d \<Rightarrow> d | None \<Rightarrow> 0)) 0 ds"

definition scan_sign :: "string \<Rightarrow> bool \<times> string" where
  "scan_sign inp =
     (case inp of
        c # cs \<Rightarrow> if c = CHR ''-'' then (True, cs)
                  else if c = CHR ''+'' then (False, cs)
                  else (False, inp)
      | [] \<Rightarrow> (False, inp))"

definition scan_0x :: "string \<Rightarrow> bool \<times> string" where
  "scan_0x inp =
     (case inp of
        c # cs \<Rightarrow>
          if c = CHR ''0'' then
            (True, case cs of
                     x # xs \<Rightarrow> if x = CHR ''x'' \<or> x = CHR ''X'' then xs else cs
                   | [] \<Rightarrow> cs)
          else (False, inp)
      | [] \<Rightarrow> (False, inp))"

definition strtoul_value :: "bool \<Rightarrow> nat \<Rightarrow> 64 word" where
  "strtoul_value neg v =
     (if 2 ^ 64 \<le> v then - 1 else if neg then - of_nat v else of_nat v)"

definition scan_hex :: "string \<Rightarrow> (64 word \<times> string) option" where
  "scan_hex inp =
     (let (neg, s1) = scan_sign (dropWhile isspace inp);
          (lead, s2) = scan_0x s1;
          ds = takeWhile isxdigit s2
      in if \<not> lead \<and> ds = [] then None
         else Some (strtoul_value neg (hex_value ds), dropWhile isxdigit s2))"

definition scan_str :: "nat option \<Rightarrow> string \<Rightarrow> (string \<times> string) option" where
  "scan_str width inp =
     (let s = dropWhile isspace inp;
          word = takeWhile (\<lambda>c. \<not> isspace c) s;
          tok = (case width of None \<Rightarrow> word | Some w \<Rightarrow> take w word)
      in if tok = [] then None else Some (tok, drop (length tok) s))"

definition expect_char :: "char \<Rightarrow> string \<Rightarrow> string option" where
  "expect_char c inp = (case inp of x # xs \<Rightarrow> if x = c then Some xs else None | [] \<Rightarrow> None)"

definition input_failure :: "string \<Rightarrow> int" where
  "input_failure line = (if dropWhile isspace line = [] then - 1 else 0)"

text \<open>
  \<^verbatim>\<open>sscanf (line, "%p-%*p %*s %*x %*s %*s %s", &start, path)\<close>: the number of items
  assigned, \<^verbatim>\<open>start\<close>, and the string stored in \<^verbatim>\<open>path\<close> (left empty here when none
  was stored: the caller reads \<^verbatim>\<open>path\<close> only after two items were assigned).
\<close>

definition sscanf_module_line :: "string \<Rightarrow> int \<times> GumAddress \<times> string" where
  "sscanf_module_line line =
     (case scan_hex line of
        None \<Rightarrow> (input_failure line, 0, [])
      | Some (start, r1) \<Rightarrow>
         (let path =
                Option.bind (expect_char CHR ''-'' r1) (\<lambda>r2.
                Option.bind (scan_hex r2) (\<lambda>(end, r3).
                Option.bind (scan_str None r3) (\<lambda>(perms, r4).
                Option.bind (scan_hex r4) (\<lambda>(offset, r5).
                Option.bind (scan_str None r5) (\<lambda>(dev, r6).
                Option.bind (scan_str None r6) (\<lambda>(inode, r7).
                map_option fst (scan_str None r7)))))))
          in (case path of None \<Rightarrow> (1, start, []) | Some p \<Rightarrow> (2, start, p))))"

text \<open>
  \<^verbatim>\<open>sscanf (line, "%lx-%lx %4s", &start, &end, perms)\<close>: the number of items assigned,
  \<^verbatim>\<open>start\<close>, \<^verbatim>\<open>end\<close>, and the string left in \<^verbatim>\<open>perms\<close>, a buffer of five bytes that
  starts out as zeros.
\<close>

definition sscanf_range_line :: "string \<Rightarrow> int \<times> GumAddress \<times> GumAddress \<times> string" where
  "sscanf_range_line line =
     (case scan_hex line of
        None \<Rightarrow> (input_failure line, 0, 0, [])
      | Some (start, r1) \<Rightarrow>
         (case Option.bind (expect_char CHR ''-'' r1) scan_hex of
            None \<Rightarrow> (1, start, 0, [])
          | Some (end, r3) \<Rightarrow>
             (case scan_str (Some 4) r3 of
                None \<Rightarrow> (2, start, end, [])
              | Some (perms, r4) \<Rightarrow> (3, start, end, perms))))"

section \<open>Page protection\<close>

type_synonym GumPageProtection = "32 word"

text \<open>
  Modelled from the spec: the enumerators of \<^verbatim>\<open>GumPageProtection\<close> are declared in
  \<^verbatim>\<open>gumdefs.h\<close>, which is not among the sources. The spec gives "a bitset over Read,
  Write, Execute; NoAccess = empty": three distinct bits and zero.
\<close>

definition GUM_PAGE_NO_ACCESS :: GumPageProtection where
  "GUM_PAGE_NO_ACCESS = 0"

definition GUM_PAGE_READ :: GumPageProtection where
  "GUM_PAGE_READ = 1"

definition GUM_PAGE_WRITE :: GumPageProtection where
  "GUM_PAGE_WRITE = 2"

definition GUM_PAGE_EXECUTE :: GumPageProtection where
  "GUM_PAGE_EXECUTE = 4"

text \<open>
  \<^verbatim>\<open>perms[i]\<close>: the string \<^verbatim>\<open>sscanf\<close> stored is followed by its terminating zero, and
  the rest of the buffer was zero from the start.
\<close>

definition perms_at :: "string \<Rightarrow> nat \<Rightarrow> char" where
  "perms_at perms i = (if i < length perms then perms ! i else CHR 0x00)"

definition gum_page_protection_from_proc_perms_string :: "string \<Rightarrow> GumPageProtection" where
  "gum_page_protection_from_proc_perms_string perms =
     (let prot = GUM_PAGE_NO_ACCESS;
          prot = (if perms_at perms 0 = CHR ''r'' then prot OR GUM_PAGE_READ else prot);
          prot = (if perms_at perms 1 = CHR ''w'' then prot OR GUM_PAGE_WRITE else prot);
          prot = (if perms_at perms 2 = CHR ''x'' then prot OR GUM_PAGE_EXECUTE else prot)
      in prot)"

section \<open>Enumerating ranges\<close>

record GumMemoryRange =
  range_base_address :: GumAddress
  range_size :: "64 word"

text \<open>
  How an enumeration ends: it returns to its caller, or the process is stopped inside it by
  a failed \<^verbatim>\<open>g_assert\<close>, by a read of memory that is not mapped, by a division by zero,
  or (for the symbol loop, see below) the model leaves off.
\<close>

datatype abort = Assertion_failed | Segfault | Division_by_zero | Index_wrapped

datatype status = Returned | Aborted abort

text \<open>
  A visitor returns \<^verbatim>\<open>carry_on\<close> and its \<^verbatim>\<open>user_data\<close> as it leaves them. An
  enumeration yields its status, the final \<^verbatim>\<open>user_data\<close>, and the arguments of its calls
  of the visitor, in order.
\<close>

type_synonym 'u GumFoundRangeFunc =
  "GumMemoryRange \<Rightarrow> GumPageProtection \<Rightarrow> 'u \<Rightarrow> bool \<times> 'u"

definition emit :: "'a \<Rightarrow> status \<times> 'u \<times> 'a list \<Rightarrow> status \<times> 'u \<times> 'a list" where
  "emit x r = (case r of (st, u, xs) \<Rightarrow> (st, u, x # xs))"

fun enumerate_ranges_loop ::
  "GumPageProtection \<Rightarrow> 'u GumFoundRangeFunc \<Rightarrow> string list \<Rightarrow> 'u \<Rightarrow>
   status \<times> 'u \<times> (GumMemoryRange \<times> GumPageProtection) list" where
  "enumerate_ranges_loop prot func [] u = (Returned, u, [])"
| "enumerate_ranges_loop prot func (line # rest) u =
     (case sscanf_range_line line of
        (n, start, end, perms) \<Rightarrow>
          if n \<noteq> 3 then (Aborted Assertion_failed, u, [])
          else
            (let cur_prot = gum_page_protection_from_proc_perms_string perms in
             if cur_prot AND prot = prot then
               (let range = \<lparr> range_base_address = start, range_size = end - start \<rparr> in
                case func range cur_prot u of
                  (carry_on, u') \<Rightarrow>
                    if carry_on
                    then emit (range, cur_prot) (enumerate_ranges_loop prot func rest u')
                    else (Returned, u', [(range, cur_prot)]))
             else enumerate_ranges_loop prot func rest u))"

text \<open>
  \<^verbatim>\<open>gum_linux_enumerate_ranges (pid, prot, func, user_data)\<close>, given what
  \<^verbatim>\<open>/proc/<pid>/maps\<close> holds.
\<close>

definition gum_linux_enumerate_ranges ::
  "(int \<Rightarrow> maps_file) \<Rightarrow> int \<Rightarrow> GumPageProtection \<Rightarrow> 'u GumFoundRangeFunc \<Rightarrow> 'u \<Rightarrow>
   status \<times> 'u \<times> (GumMemoryRange \<times> GumPageProtection) list" where
  "gum_linux_enumerate_ranges proc_maps pid prot func u =
     (case proc_maps pid of
        None \<Rightarrow> (Aborted Assertion_failed, u, [])
      | Some lines \<Rightarrow> enumerate_ranges_loop prot func lines u)"

section \<open>Memory\<close>

text \<open>
  The code reads the process's memory through pointers: the first bytes of a mapping, and
  the headers, symbols and strings of the file it has mapped. Memory is what such a read
  yields at an address, for each type the code reads there; \<^verbatim>\<open>None\<close> where the read
  faults. \<^verbatim>\<open>cstr_at\<close> is the zero-terminated string that starts at an address.
\<close>

record GumElfEHeader =
  e_type :: "16 word"
  e_shoff :: "64 word"
  e_shentsize :: "16 word"
  e_shnum :: "16 word"

record GumElfSHeader =
  sh_type :: "32 word"
  sh_offset :: "64 word"
  sh_size :: "64 word"
  sh_link :: "32 word"
  sh_entsize :: "64 word"

record GumElfSymbol =
  st_name :: "32 word"
  st_info :: "8 word"
  st_shndx :: "16 word"
  st_value :: "64 word"

record memory =
  byte_at :: "GumAddress \<Rightarrow> 8 word option"
  ehdr_at :: "GumAddress \<Rightarrow> GumElfEHeader option"
  shdr_at :: "GumAddress \<Rightarrow> GumElfSHeader option"
  sym_at :: "GumAddress \<Rightarrow> GumElfSymbol option"
  cstr_at :: "GumAddress \<Rightarrow> string option"

section \<open>Enumerating modules\<close>

type_synonym 'u GumFoundModuleFunc =
  "string \<Rightarrow> GumAddress \<Rightarrow> string \<Rightarrow> 'u \<Rightarrow> bool \<times> 'u"

text \<open>
  \<^verbatim>\<open>g_path_get_basename\<close> of GLib: the last component of a path, without trailing
  separators; \<^verbatim>\<open>"."\<close> for the empty string and \<^verbatim>\<open>"/"\<close> for a string of separators.
\<close>

definition g_path_get_basename :: "string \<Rightarrow> string" where
  "g_path_get_basename file_name =
     (if file_name = [] then ''.''
      else
        (let stripped = rev (dropWhile (\<lambda>c. c = CHR ''/'') (rev file_name)) in
         if stripped = [] then ''/''
         else rev (takeWhile (\<lambda>c. c \<noteq> CHR ''/'') (rev stripped))))"

definition elf_magic :: "8 word list" where
  "elf_magic = [0x7f, 0x45, 0x4c, 0x46]"

text \<open>
  \<^verbatim>\<open>memcmp (start, elf_magic, sizeof (elf_magic)) == 0\<close>: whether the four bytes at
  \<^verbatim>\<open>start\<close> are the magic, or \<^verbatim>\<open>None\<close> when they cannot be read.
\<close>

definition memcmp_elf_magic :: "memory \<Rightarrow> GumAddress \<Rightarrow> bool option" where
  "memcmp_elf_magic m start =
     (let bytes = map (\<lambda>i. byte_at m (start + of_nat i)) [0..<4] in
      if None \<in> set bytes then None else Some (bytes = map Some elf_magic))"

fun enumerate_modules_loop ::
  "memory \<Rightarrow> 'u GumFoundModuleFunc \<Rightarrow> string list \<Rightarrow> string \<Rightarrow> 'u \<Rightarrow>
   status \<times> 'u \<times> (string \<times> GumAddress \<times> string) list" where
  "enumerate_modules_loop m func [] prev_path u = (Returned, u, [])"
| "enumerate_modules_loop m func (line # rest) prev_path u =
     (case sscanf_module_line line of
        (n, start, path) \<Rightarrow>
          if n = 1 then enumerate_modules_loop m func rest prev_path u
          else if n \<noteq> 2 then (Aborted Assertion_failed, u, [])
          else if path = prev_path \<or> take 1 path = ''[''
            then enumerate_modules_loop m func rest prev_path u
          else
            (case memcmp_elf_magic m start of
               None \<Rightarrow> (Aborted Segfault, u, [])
             | Some False \<Rightarrow> enumerate_modules_loop m func rest prev_path u
             | Some True \<Rightarrow>
                (let name = g_path_get_basename path in
                 case func name start path u of
                   (carry_on, u') \<Rightarrow>
                     if carry_on
                     then emit (name, start, path) (enumerate_modules_loop m func rest path u')
                     else (Returned, u', [(name, start, path)]))))"

text \<open>
  \<^verbatim>\<open>gum_process_enumerate_modules (func, user_data)\<close>, given what \<^verbatim>\<open>/proc/self/maps\<close>
  holds and the memory of the process. \<^verbatim>\<open>prev_path\<close> starts as the empty string.
\<close>

definition gum_process_enumerate_modules ::
  "maps_file \<Rightarrow> memory \<Rightarrow> 'u GumFoundModuleFunc \<Rightarrow> 'u \<Rightarrow>
   status \<times> 'u \<times> (string \<times> GumAddress \<times> string) list" where
  "gum_process_enumerate_modules self_maps m func u =
     (case self_maps of
        None \<Rightarrow> (Aborted Assertion_failed, u, [])
      | Some lines \<Rightarrow> enumerate_modules_loop m func lines [] u)"

record GumFindModuleContext =
  find_module_name :: string
  find_base :: GumAddress
  find_path :: "string option"

definition gum_store_base_and_path_if_name_matches ::
  "GumFindModuleContext GumFoundModuleFunc" where
  "gum_store_base_and_path_if_name_matches name address path ctx =
     (if name \<noteq> find_module_name ctx then (True, ctx)
      else (False, ctx \<lparr> find_base := address, find_path := Some path \<rparr>))"

definition gum_module_find_base_address :: "maps_file \<Rightarrow> memory \<Rightarrow> string \<Rightarrow> status \<times> GumAddress" where
  "gum_module_find_base_address self_maps m module_name =
     (let ctx = \<lparr> find_module_name = module_name, find_base = 0, find_path = None \<rparr> in
      case gum_process_enumerate_modules self_maps m gum_store_base_and_path_if_name_matches ctx of
        (st, ctx', found) \<Rightarrow> (st, find_base ctx'))"

section \<open>Enumerating the exports of a module\<close>

text \<open>The constants and macros of \<^verbatim>\<open>elf.h\<close> the resolver uses.\<close>

definition ET_DYN :: "16 word" where
  "ET_DYN = 3"

definition SHT_DYNSYM :: "32 word" where
  "SHT_DYNSYM = 11"


definition STB_GLOBAL :: "8 word" where
  "STB_GLOBAL = 1"

definition STB_WEAK :: "8 word" where
  "STB_WEAK = 2"

definition STT_FUNC :: "8 word" where
  "STT_FUNC = 2"

definition SHN_UNDEF :: "16 word" where
  "SHN_UNDEF = 0"

definition GUM_ELF_ST_BIND :: "8 word \<Rightarrow> 8 word" where
  "GUM_ELF_ST_BIND val = drop_bit 4 val"

definition GUM_ELF_ST_TYPE :: "8 word \<Rightarrow> 8 word" where
  "GUM_ELF_ST_TYPE val = val AND 0xf"

definition MAP_FAILED :: GumAddress where
  "MAP_FAILED = - 1"

text \<open>
  What the kernel answers to the resolver: the maps file and the memory of the process
  (with the mapped file in it, at the address \<^verbatim>\<open>mmap\<close> returns), the descriptor or -1 of
  \<^verbatim>\<open>open (path, O_RDONLY)\<close>, the offset \<^verbatim>\<open>lseek (fd, 0, SEEK_END)\<close> returns, and the
  address or \<^verbatim>\<open>MAP_FAILED\<close> of \<^verbatim>\<open>mmap (NULL, file_size, PROT_READ, MAP_PRIVATE, fd, 0)\<close>.
\<close>

record os =
  proc_self_maps :: maps_file
  mem :: memory
  sys_open :: "string \<Rightarrow> int"
  sys_lseek_end :: "int \<Rightarrow> 64 word"
  sys_mmap :: "64 word \<Rightarrow> int \<Rightarrow> GumAddress"

datatype syscall =
    Sys_open string int
  | Sys_lseek int
  | Sys_mmap "64 word" int GumAddress
  | Sys_munmap GumAddress "64 word"
  | Sys_close int

text \<open>
  A visitor of exports receives the pointer \<^verbatim>\<open>name\<close> and the address; to read the name
  it reads memory, which can fault (\<^verbatim>\<open>None\<close>).
\<close>

type_synonym 'u GumFoundExportFunc =
  "memory \<Rightarrow> GumAddress \<Rightarrow> GumAddress \<Rightarrow> 'u \<Rightarrow> (bool \<times> 'u) option"

text \<open>The four locals the section loop sets when it meets a section of type DYNSYM.\<close>

record dynsym =
  dynsym_section_offset :: "64 word"
  dynsym_section_size :: "64 word"
  dynsym_entry_size :: "64 word"
  dynsym_strtab :: GumAddress

text \<open>
  The loop over the section headers, \<^verbatim>\<open>for (i = 0; i != ehdr->e_shnum; i++)\<close>, over the
  values \<^verbatim>\<open>i\<close> takes. \<^verbatim>\<open>i\<close> and \<^verbatim>\<open>sh_link\<close> are 32 bits wide, and so are their products
  with \<^verbatim>\<open>e_shentsize\<close>; \<^verbatim>\<open>g_assert_cmpuint (size % entry_size, ==, 0)\<close> divides first.
\<close>

fun section_headers_loop ::
  "memory \<Rightarrow> GumAddress \<Rightarrow> GumElfEHeader \<Rightarrow> nat list \<Rightarrow> dynsym \<Rightarrow> abort + dynsym" where
  "section_headers_loop m base_address ehdr [] d = Inr d"
| "section_headers_loop m base_address ehdr (i # is) d =
     (case shdr_at m (base_address + e_shoff ehdr
                        + ucast ((of_nat i :: 32 word) * ucast (e_shentsize ehdr))) of
        None \<Rightarrow> Inl Segfault
      | Some shdr \<Rightarrow>
         if sh_type shdr = SHT_DYNSYM then
           (case shdr_at m (base_address + e_shoff ehdr
                              + ucast ((sh_link shdr :: 32 word) * ucast (e_shentsize ehdr))) of
              None \<Rightarrow> Inl Segfault
            | Some strtab_shdr \<Rightarrow>
               (let d' = \<lparr> dynsym_section_offset = sh_offset shdr,
                           dynsym_section_size = sh_size shdr,
                           dynsym_entry_size = sh_entsize shdr,
                           dynsym_strtab = base_address + sh_offset strtab_shdr \<rparr>
                in if dynsym_entry_size d' = 0 then Inl Division_by_zero
                   else if dynsym_section_size d' mod dynsym_entry_size d' \<noteq> 0
                     then Inl Assertion_failed
                   else section_headers_loop m base_address ehdr is d'))
         else section_headers_loop m base_address ehdr is d)"

text \<open>
  Whether the symbol loop passes an entry to the visitor, and what it passes: the test and
  the two assignments of the loop's body.
\<close>

definition is_exported_function :: "GumElfSymbol \<Rightarrow> bool" where
  "is_exported_function symbol \<longleftrightarrow>
     (GUM_ELF_ST_BIND (st_info symbol) = STB_GLOBAL \<or> GUM_ELF_ST_BIND (st_info symbol) = STB_WEAK) \<and>
     GUM_ELF_ST_TYPE (st_info symbol) = STT_FUNC \<and>
     st_shndx symbol \<noteq> SHN_UNDEF"

definition export_of :: "GumAddress \<Rightarrow> dynsym \<Rightarrow> GumElfSymbol \<Rightarrow> GumAddress \<times> GumAddress" where
  "export_of module_base d symbol = (dynsym_strtab d + ucast (st_name symbol), module_base + st_value symbol)"

definition symbol_address :: "GumAddress \<Rightarrow> dynsym \<Rightarrow> 32 word \<Rightarrow> GumAddress" where
  "symbol_address base_address d i =
     base_address + dynsym_section_offset d + ucast i * dynsym_entry_size d"

text \<open>
  The loop over the symbols, \<^verbatim>\<open>for (i = 0; i != size / entry_size; i++)\<close>, from a value
  of \<^verbatim>\<open>i\<close> on. \<^verbatim>\<open>i\<close> is a \<^verbatim>\<open>guint\<close> of 32 bits and the quotient has 64: when \<^verbatim>\<open>i\<close>
  comes back to 0 the table has 2^32 entries or more, the loop starts over and cannot end
  by its condition, and the model follows it no further (\<^verbatim>\<open>Index_wrapped\<close>).
\<close>

function enumerate_symbols_loop ::
  "memory \<Rightarrow> GumAddress \<Rightarrow> GumAddress \<Rightarrow> dynsym \<Rightarrow> 'u GumFoundExportFunc \<Rightarrow> 32 word \<Rightarrow> 'u \<Rightarrow>
   status \<times> 'u \<times> (GumAddress \<times> GumAddress) list" where
  "enumerate_symbols_loop m base_address module_base d func i u =
     (if ucast i = dynsym_section_size d div dynsym_entry_size d then (Returned, u, [])
      else
        (case sym_at m (symbol_address base_address d i) of
           None \<Rightarrow> (Aborted Segfault, u, [])
         | Some symbol \<Rightarrow>
            if is_exported_function symbol then
              (case func m (fst (export_of module_base d symbol)) (snd (export_of module_base d symbol)) u of
                 None \<Rightarrow> (Aborted Segfault, u, [export_of module_base d symbol])
               | Some (carry_on, u') \<Rightarrow>
                  if \<not> carry_on then (Returned, u', [export_of module_base d symbol])
                  else if i + 1 = 0 then (Aborted Index_wrapped, u', [export_of module_base d symbol])
                  else emit (export_of module_base d symbol)
                         (enumerate_symbols_loop m base_address module_base d func (i + 1) u'))
            else if i + 1 = 0 then (Aborted Index_wrapped, u, [])
            else enumerate_symbols_loop m base_address module_base d func (i + 1) u))"
  by pat_completeness auto
termination
proof -
  have step: "2 ^ 32 - unat (i + 1) < (2 ^ 32 :: nat) - unat i" if "i + 1 \<noteq> 0" for i :: "32 word"
  proof -
    have "unat (i + 1) = Suc (unat i)"
      using that unatSuc [of i] by (simp add: add.commute)
    moreover have "unat i < 2 ^ 32"
      using unsigned_less [of i] by simp
    ultimately show ?thesis by simp
  qed
  show ?thesis
    by (relation "measure (\<lambda>(m, base_address, module_base, d, func, i, u). 2 ^ 32 - unat i)")
      (use step in auto)
qed

text \<open>
  The code after the label \<^verbatim>\<open>beach\<close>: the calls that release the mapping and the
  descriptor.
\<close>

definition beach :: "GumAddress \<Rightarrow> 64 word \<Rightarrow> int \<Rightarrow> syscall list" where
  "beach base_address file_size fd =
     (if base_address \<noteq> 0 then [Sys_munmap base_address file_size] else []) @
     (if fd \<noteq> - 1 then [Sys_close fd] else [])"

text \<open>
  \<^verbatim>\<open>gum_module_enumerate_exports (module_name, func, user_data)\<close> in two parts. The first
  runs from the entry of the function to the symbol loop and does not involve the visitor:
  it finds the module, opens and maps its file, checks the file type and walks the section
  headers. It ends the function (\<^verbatim>\<open>Inl\<close>: the status and the system calls made, those
  after \<^verbatim>\<open>beach\<close> included when the function returns), or it arrives at the symbol loop
  (\<^verbatim>\<open>Inr\<close>) with \<^verbatim>\<open>ctx.base\<close>, \<^verbatim>\<open>base_address\<close>, the four locals of the symbol table,
  the system calls made so far and those \<^verbatim>\<open>beach\<close> will make.
\<close>

definition find_dynamic_symbols ::
  "os \<Rightarrow> string \<Rightarrow>
   (status \<times> syscall list) + (GumAddress \<times> GumAddress \<times> dynsym \<times> syscall list \<times> syscall list)" where
  "find_dynamic_symbols k module_name =
     (let ctx0 = \<lparr> find_module_name = module_name, find_base = 0, find_path = None \<rparr> in
      case gum_process_enumerate_modules (proc_self_maps k) (mem k)
             gum_store_base_and_path_if_name_matches ctx0 of
        (Aborted a, ctx, found) \<Rightarrow> Inl (Aborted a, [])
      | (Returned, ctx, found) \<Rightarrow>
         if find_base ctx = 0 then Inl (Returned, beach 0 0 (- 1))
         else
           (let path = (case find_path ctx of Some p \<Rightarrow> p | None \<Rightarrow> []);
                fd = sys_open k path
            in if fd = - 1 then Inl (Returned, [Sys_open path fd] @ beach 0 0 fd)
               else
                 (let file_size = sys_lseek_end k fd;
                      base_address = sys_mmap k file_size fd;
                      calls = [Sys_open path fd, Sys_lseek fd, Sys_lseek fd,
                               Sys_mmap file_size fd base_address]
                  in if base_address = MAP_FAILED then Inl (Aborted Assertion_failed, calls)
                     else
                       (case ehdr_at (mem k) base_address of
                          None \<Rightarrow> Inl (Aborted Segfault, calls)
                        | Some ehdr \<Rightarrow>
                           if e_type ehdr \<noteq> ET_DYN
                             then Inl (Returned, calls @ beach base_address file_size fd)
                           else
                             (case section_headers_loop (mem k) base_address ehdr
                                     [0..<unat (e_shnum ehdr)]
                                     \<lparr> dynsym_section_offset = 0, dynsym_section_size = 0,
                                       dynsym_entry_size = 0, dynsym_strtab = 0 \<rparr> of
                                Inl a \<Rightarrow> Inl (Aborted a, calls)
                              | Inr d \<Rightarrow>
                                 if dynsym_section_offset d = 0
                                   then Inl (Returned, calls @ beach base_address file_size fd)
                                 else Inr (find_base ctx, base_address, d, calls,
                                           beach base_address file_size fd))))))"

text \<open>
  The whole function: its status, the visitor's data, the exports passed to the visitor,
  and the system calls made on the file. When the process is stopped inside the function,
  the function releases nothing. (\<^verbatim>\<open>find_path\<close> is set whenever \<^verbatim>\<open>find_base\<close> is: the
  visitor stores both.)
\<close>

definition gum_module_enumerate_exports ::
  "os \<Rightarrow> string \<Rightarrow> 'u GumFoundExportFunc \<Rightarrow> 'u \<Rightarrow>
   status \<times> 'u \<times> (GumAddress \<times> GumAddress) list \<times> syscall list" where
  "gum_module_enumerate_exports k module_name func u =
     (case find_dynamic_symbols k module_name of
        Inl (st, calls) \<Rightarrow> (st, u, [], calls)
      | Inr (module_base, base_address, d, calls, release) \<Rightarrow>
         (case enumerate_symbols_loop (mem k) base_address module_base d func 0 u of
            (Aborted a, u', exports) \<Rightarrow> (Aborted a, u', exports, calls)
          | (Returned, u', exports) \<Rightarrow> (Returned, u', exports, calls @ release)))"

record GumFindExportContext =
  find_result :: GumAddress
  find_symbol_name :: string

definition gum_store_address_if_export_name_matches ::
  "GumFindExportContext GumFoundExportFunc" where
  "gum_store_address_if_export_name_matches m name address ctx =
     (case cstr_at m name of
        None \<Rightarrow> None
      | Some s \<Rightarrow>
         if s = find_symbol_name ctx then Some (False, ctx \<lparr> find_result := address \<rparr>)
         else Some (True, ctx))"

definition gum_module_find_export_by_name :: "os \<Rightarrow> string \<Rightarrow> string \<Rightarrow> status \<times> GumAddress" where
  "gum_module_find_export_by_name k module_name symbol_name =
     (let ctx0 = \<lparr> find_result = 0, find_symbol_name = symbol_name \<rparr> in
      case gum_module_enumerate_exports k module_name
             gum_store_address_if_export_name_matches ctx0 of
        (st, ctx, exports, calls) \<Rightarrow> (st, find_result ctx))"

section \<open>Notions the properties are stated with\<close>

text \<open>
  A visitor is offered the items of a list in order until it returns FALSE: whether it
  carried on to the end, the data it leaves, and the items it was called on.
\<close>

fun visit_until_stop ::
  "('a \<Rightarrow> 'u \<Rightarrow> bool \<times> 'u) \<Rightarrow> 'a list \<Rightarrow> 'u \<Rightarrow> bool \<times> 'u \<times> 'a list" where
  "visit_until_stop f [] u = (True, u, [])"
| "visit_until_stop f (x # xs) u =
     (case f x u of
        (carry_on, u') \<Rightarrow>
          if carry_on
          then (case visit_until_stop f xs u' of (c, u'', ys) \<Rightarrow> (c, u'', x # ys))
          else (False, u', [x]))"

text \<open>
  For a line of a maps file, as the range enumerator reads it: the range and protection
  it describes, whether all three items are read from it, and whether its protection
  includes the requested one.
\<close>

definition range_of_line :: "string \<Rightarrow> GumMemoryRange \<times> GumPageProtection" where
  "range_of_line line =
     (case sscanf_range_line line of
        (n, start, end, perms) \<Rightarrow>
          (\<lparr> range_base_address = start, range_size = end - start \<rparr>,
           gum_page_protection_from_proc_perms_string perms))"

definition line_parses :: "string \<Rightarrow> bool" where
  "line_parses line \<longleftrightarrow> fst (sscanf_range_line line) = 3"

definition line_satisfies :: "GumPageProtection \<Rightarrow> string \<Rightarrow> bool" where
  "line_satisfies prot line \<longleftrightarrow> snd (range_of_line line) AND prot = prot"

text \<open>The four bytes at an address are the ELF magic; the path of a module record.\<close>

definition has_elf_magic :: "memory \<Rightarrow> GumAddress \<Rightarrow> bool" where
  "has_elf_magic m start \<longleftrightarrow>
     byte_at m start = Some 0x7f \<and> byte_at m (start + 1) = Some 0x45 \<and>
     byte_at m (start + 2) = Some 0x4c \<and> byte_at m (start + 3) = Some 0x46"

definition module_path :: "string \<times> GumAddress \<times> string \<Rightarrow> string" where
  "module_path r = snd (snd r)"

text \<open>
  For a line of a maps file, as the module enumerator reads it: whether both the start
  address and a path are read from it, and the record it would be emitted as.
\<close>

definition line_has_path :: "string \<Rightarrow> bool" where
  "line_has_path line \<longleftrightarrow> fst (sscanf_module_line line) = 2"

definition module_of_line :: "string \<Rightarrow> string \<times> GumAddress \<times> string" where
  "module_of_line line =
     (case sscanf_module_line line of
        (n, start, path) \<Rightarrow> (g_path_get_basename path, start, path))"



text \<open>The name an emitted export points to is a given string.\<close>

definition export_named :: "memory \<Rightarrow> string \<Rightarrow> GumAddress \<times> GumAddress \<Rightarrow> bool" where
  "export_named m s x \<longleftrightarrow> cstr_at m (fst x) = Some s"

section \<open>Example inputs\<close>

text \<open>
  A process with two threads beside the caller (thread 1): the kernel delivers the hijack
  signal to thread 2 and refuses it for every other target. All registers are zero.
\<close>

definition zero_uc :: ucontext_t where
  "zero_uc = \<lparr> uc_gregs = (\<lambda>r. 0), uc_other = 0 \<rparr>"

definition idle_process :: "unit process" where
  "idle_process =
     \<lparr> lock_owner = None,
       gum_modify_thread_did_load_cpu_context = False,
       gum_modify_thread_did_modify_cpu_context = False,
       gum_modify_thread_did_store_cpu_context = False,
       gum_modify_thread_cpu_context = gum_cpu_context_from_linux zero_uc,
       hijack_action = \<lparr> sa_sigaction = SIG_DFL, sa_mask = {}, sa_flags = 0 \<rparr>,
       thread_uc = (\<lambda>t. zero_uc),
       user_data = (),
       trace = [] \<rparr>"

definition quiet_kernel :: kernel where
  "quiet_kernel =
     \<lparr> sys_gettid = 1, sys_tgkill = (\<lambda>t. if t = 2 then 0 else - 1),
       runs_handler = (\<lambda>t. True) \<rparr>"

text \<open>
  Three visitors: one sends the thread to address 4096, one sets a data register, one
  moves the stack pointer and the frame pointer.
\<close>

definition redirecting_visitor :: "unit GumModifyThreadFunc" where
  "redirecting_visitor thread_id cpu_context u = (cpu_context \<lparr> rip := 4096 \<rparr>, u)"



text \<open>
  A maps file: the text and data of \<^verbatim>\<open>/bin/cat\<close>, the heap, the C library, an anonymous
  mapping and the vdso. The memory holds the ELF magic at the start of the text of
  \<^verbatim>\<open>/bin/cat\<close>, of the C library and of the vdso, and zeros elsewhere.
\<close>

definition maps_line_text :: string where
  "maps_line_text = ''00400000-0040b000 r-xp 00000000 08:01 1234567   /bin/cat''"

definition maps_line_data :: string where
  "maps_line_data = ''0060a000-0060c000 rw-p 0000a000 08:01 1234567   /bin/cat''"

definition maps_line_heap :: string where
  "maps_line_heap = ''0060c000-0062d000 rw-p 00000000 00:00 0   [heap]''"

definition maps_line_libc :: string where
  "maps_line_libc = ''7f0000000000-7f00001c0000 r-xp 00000000 08:01 99   /lib/libc.so.6''"

definition maps_line_anon :: string where
  "maps_line_anon = ''7f00003c6000-7f00003ca000 rw-p 00000000 00:00 0 ''"

definition maps_line_vdso :: string where
  "maps_line_vdso = ''7ffff7ffa000-7ffff7ffc000 r-xp 00000000 00:00 0   [vdso]''"

definition example_maps :: "string list" where
  "example_maps = [maps_line_text, maps_line_data, maps_line_heap, maps_line_libc,
     maps_line_anon, maps_line_vdso]"

definition magic_byte :: "GumAddress \<Rightarrow> GumAddress \<Rightarrow> 8 word option" where
  "magic_byte start a =
     (if a = start then Some 0x7f else if a = start + 1 then Some 0x45
      else if a = start + 2 then Some 0x4c else if a = start + 3 then Some 0x46
      else None)"

definition example_bytes :: "GumAddress \<Rightarrow> 8 word option" where
  "example_bytes a =
     (case magic_byte 0x400000 a of
        Some b \<Rightarrow> Some b
      | None \<Rightarrow>
         (case magic_byte 0x7f0000000000 a of
            Some b \<Rightarrow> Some b
          | None \<Rightarrow>
             (case magic_byte 0x7ffff7ffa000 a of
                Some b \<Rightarrow> Some b
              | None \<Rightarrow> Some 0)))"

text \<open>
  The file of the C library, mapped at 0x10000: a header of type ET_DYN, three section
  headers of 64 bytes at offset 0x100 (the second of type DYNSYM, linked to the third),
  five symbols of 24 bytes at offset 0x200, and the strings at offset 0x300. The symbols:
  the null symbol; \<^verbatim>\<open>malloc\<close>, a global function; \<^verbatim>\<open>helper\<close>, a local function;
  \<^verbatim>\<open>gmon\<close>, a weak function that is undefined; \<^verbatim>\<open>free\<close>, a global function.
\<close>

definition example_ehdr :: GumElfEHeader where
  "example_ehdr = \<lparr> e_type = 3, e_shoff = 0x100, e_shentsize = 64, e_shnum = 3 \<rparr>"

definition example_shdrs :: "GumElfSHeader list" where
  "example_shdrs =
     [\<lparr> sh_type = 0, sh_offset = 0, sh_size = 0, sh_link = 0, sh_entsize = 0 \<rparr>,
      \<lparr> sh_type = 11, sh_offset = 0x200, sh_size = 120, sh_link = 2, sh_entsize = 24 \<rparr>,
      \<lparr> sh_type = 3, sh_offset = 0x300, sh_size = 25, sh_link = 0, sh_entsize = 0 \<rparr>]"

definition symbol_malloc :: GumElfSymbol where
  "symbol_malloc = \<lparr> st_name = 1, st_info = 0x12, st_shndx = 1, st_value = 0x1000 \<rparr>"

definition symbol_helper :: GumElfSymbol where
  "symbol_helper = \<lparr> st_name = 8, st_info = 0x02, st_shndx = 1, st_value = 0x1800 \<rparr>"

definition symbol_gmon :: GumElfSymbol where
  "symbol_gmon = \<lparr> st_name = 15, st_info = 0x22, st_shndx = 0, st_value = 0 \<rparr>"

definition symbol_free :: GumElfSymbol where
  "symbol_free = \<lparr> st_name = 20, st_info = 0x12, st_shndx = 1, st_value = 0x2000 \<rparr>"

definition example_symbols :: "GumElfSymbol list" where
  "example_symbols =
     [\<lparr> st_name = 0, st_info = 0, st_shndx = 0, st_value = 0 \<rparr>,
      symbol_malloc, symbol_helper, symbol_gmon, symbol_free]"

definition example_strings :: "GumAddress \<Rightarrow> string option" where
  "example_strings a =
     (if a = 0x10301 then Some ''malloc'' else if a = 0x10308 then Some ''helper''
      else if a = 0x1030f then Some ''gmon'' else if a = 0x10314 then Some ''free''
      else None)"

definition example_memory :: memory where
  "example_memory =
     \<lparr> byte_at = example_bytes,
       ehdr_at = (\<lambda>a. if a = 0x10000 then Some example_ehdr else None),
       shdr_at = (\<lambda>a. if a = 0x10100 then Some (example_shdrs ! 0)
                      else if a = 0x10140 then Some (example_shdrs ! 1)
                      else if a = 0x10180 then Some (example_shdrs ! 2) else None),
       sym_at = (\<lambda>a. if a = 0x10200 then Some (example_symbols ! 0)
                     else if a = 0x10218 then Some (example_symbols ! 1)
                     else if a = 0x10230 then Some (example_symbols ! 2)
                     else if a = 0x10248 then Some (example_symbols ! 3)
                     else if a = 0x10260 then Some (example_symbols ! 4) else None),
       cstr_at = example_strings \<rparr>"

definition example_dynsym :: dynsym where
  "example_dynsym =
     \<lparr> dynsym_section_offset = 0x200, dynsym_section_size = 120, dynsym_entry_size = 24,
       dynsym_strtab = 0x10300 \<rparr>"

text \<open>
  The kernel opens the file of the C library as descriptor 3 and no other file, says it
  has 0x1000 bytes, and maps it at 0x10000.
\<close>

definition example_os :: os where
  "example_os =
     \<lparr> proc_self_maps = Some example_maps,
       mem = example_memory,
       sys_open = (\<lambda>path. if path = ''/lib/libc.so.6'' then 3 else - 1),
       sys_lseek_end = (\<lambda>fd. 0x1000),
       sys_mmap = (\<lambda>n fd. 0x10000) \<rparr>"

definition example_calls :: "syscall list" where
  "example_calls =
     [Sys_open ''/lib/libc.so.6'' 3, Sys_lseek 3, Sys_lseek 3, Sys_mmap 0x1000 3 0x10000,
      Sys_munmap 0x10000 0x1000, Sys_close 3]"

text \<open>Visitors that always carry on, and one that stops at its first call.\<close>

definition continuing_module_visitor :: "unit GumFoundModuleFunc" where
  "continuing_module_visitor name address path u = (True, u)"

definition continuing_range_visitor :: "unit GumFoundRangeFunc" where
  "continuing_range_visitor r prot u = (True, u)"

definition stopping_range_visitor :: "unit GumFoundRangeFunc" where
  "stopping_range_visitor r prot u = (False, u)"

definition continuing_export_visitor :: "unit GumFoundExportFunc" where
  "continuing_export_visitor m name address u = Some (True, u)"


section \<open>Properties of the marshaller\<close>

lemma from_linux_to_linux:
  "gum_cpu_context_from_linux (gum_cpu_context_to_linux c uc) = c"
  by (simp add: gum_cpu_context_from_linux_def gum_cpu_context_to_linux_def)

lemma from_linux32_to_linux32:
  "gum_cpu_context_from_linux32 (gum_cpu_context_to_linux32 c uc) = c"
  by (simp add: gum_cpu_context_from_linux32_def gum_cpu_context_to_linux32_def)

text \<open>
  C8. A CpuContext converted into a machine context by \<^verbatim>\<open>gum_cpu_context_to_linux\<close>
  and converted back by \<^verbatim>\<open>gum_cpu_context_from_linux\<close> is the CpuContext one started
  from, whatever the machine context held before: the instruction pointer and every
  general-purpose register of the bank come back unchanged, in the x86-64 build and in the
  x86-32 build.
\<close>

theorem cpu_context_round_trip:
  "gum_cpu_context_from_linux (gum_cpu_context_to_linux c uc) = c \<and>
   gum_cpu_context_from_linux32 (gum_cpu_context_to_linux32 d ud) = d"
  by (simp add: gum_cpu_context_from_linux_def gum_cpu_context_to_linux_def
      gum_cpu_context_from_linux32_def gum_cpu_context_to_linux32_def)

section \<open>Properties of the thread context broker\<close>


lemma rip_to_linux: "uc_gregs (gum_cpu_context_to_linux c uc) REG_RIP = rip c"
  by (simp add: gum_cpu_context_to_linux_def)

text \<open>
  The same-thread branch, run through both entries of the code after \<^verbatim>\<open>getcontext\<close>:
  the first entry calls the visitor and restores the context; the second, reached when the
  restored context resumes after \<^verbatim>\<open>getcontext\<close>, finds \<^verbatim>\<open>modified\<close> set and returns.
\<close>

lemma same_thread_result:
  assumes "thread_id = gum_process_get_current_thread_id k"
    and "func thread_id (gum_cpu_context_from_linux (thread_uc s thread_id)) (user_data s) = (c, u)"
  shows "gum_process_modify_thread k thread_id func s =
     (if resumes_after_getcontext (thread_uc s thread_id)
            (gum_cpu_context_to_linux c (thread_uc s thread_id))
      then Returns True else Resumes_at (rip c),
      s \<lparr> user_data := u,
          trace := trace s @
            [Ev_getcontext,
             Ev_visit thread_id (gum_cpu_context_from_linux (thread_uc s thread_id)),
             Ev_setcontext (gum_cpu_context_to_linux c (thread_uc s thread_id))] \<rparr>)"
  using assms
  by (simp add: gum_process_modify_thread_def Let_def log_event_def rip_to_linux)




text \<open>
  C2. In a cross-thread call (the lock being free, so that the call gets as far as the
  system call) in which \<^verbatim>\<open>tgkill\<close> fails, the function returns FALSE; the action
  installed for the hijack signal is again the one installed before the call; the lock is
  released; the visitor is not called (the log holds the lock, the two \<^verbatim>\<open>sigaction\<close>
  calls, the \<^verbatim>\<open>tgkill\<close> and the unlock, and no visit); and the machine context of every
  thread, the target's among them, and the visitor's data are as before.
\<close>

theorem tgkill_failure:
  assumes "thread_id \<noteq> gum_process_get_current_thread_id k"
    and "lock_owner s = None"
    and "sys_tgkill k thread_id \<noteq> 0"
  shows "(let r = gum_process_modify_thread k thread_id func s in
     fst r = Returns False \<and>
     hijack_action (snd r) = hijack_action s \<and>
     lock_owner (snd r) = None \<and>
     thread_uc (snd r) = thread_uc s \<and>
     user_data (snd r) = user_data s \<and>
     trace (snd r) = trace s @
       [Ev_lock,
        Ev_sigaction \<lparr> sa_sigaction = Handler_gum_do_modify_thread, sa_mask = {},
                       sa_flags = SA_SIGINFO \<rparr>,
        Ev_tgkill thread_id,
        Ev_sigaction (hijack_action s),
        Ev_unlock])"
  using assms
  by (simp add: gum_process_modify_thread_def Let_def log_event_def)

theorem tgkill_failure_witness:
  "(3 :: nat) \<noteq> gum_process_get_current_thread_id quiet_kernel \<and>
   lock_owner idle_process = None \<and>
   sys_tgkill quiet_kernel 3 \<noteq> 0 \<and>
   fst (gum_process_modify_thread quiet_kernel 3 redirecting_visitor idle_process)
     = Returns False \<and>
   hijack_action (snd (gum_process_modify_thread quiet_kernel 3 redirecting_visitor idle_process))
     = \<lparr> sa_sigaction = SIG_DFL, sa_mask = {}, sa_flags = 0 \<rparr> \<and>
   thread_uc (snd (gum_process_modify_thread quiet_kernel 3 redirecting_visitor idle_process)) 3
     = zero_uc"
proof -
  have a: "(3 :: nat) \<noteq> gum_process_get_current_thread_id quiet_kernel"
    by (simp add: gum_process_get_current_thread_id_def quiet_kernel_def)
  have b: "lock_owner idle_process = None"
    by (simp add: idle_process_def)
  have c: "sys_tgkill quiet_kernel 3 \<noteq> 0"
    by (simp add: quiet_kernel_def)
  show ?thesis
    using a b c tgkill_failure [OF a b c, of redirecting_visitor]
    by (simp add: Let_def idle_process_def)
qed

text \<open>
  C10. A same-thread call never takes the lock and leaves the process-global state of the
  rendezvous as it was: the owner of the lock, the three flags, the shared context buffer
  and the action installed for the hijack signal are unchanged, and what the call adds to
  the log holds no lock, no unlock and no \<^verbatim>\<open>sigaction\<close>.
\<close>

theorem same_thread_frame:
  assumes "thread_id = gum_process_get_current_thread_id k"
  shows "(let s' = snd (gum_process_modify_thread k thread_id func s) in
     lock_owner s' = lock_owner s \<and>
     gum_modify_thread_did_load_cpu_context s' = gum_modify_thread_did_load_cpu_context s \<and>
     gum_modify_thread_did_modify_cpu_context s' = gum_modify_thread_did_modify_cpu_context s \<and>
     gum_modify_thread_did_store_cpu_context s' = gum_modify_thread_did_store_cpu_context s \<and>
     gum_modify_thread_cpu_context s' = gum_modify_thread_cpu_context s \<and>
     hijack_action s' = hijack_action s \<and>
     take (length (trace s)) (trace s') = trace s \<and>
     list_all (\<lambda>e. e \<noteq> Ev_lock \<and> e \<noteq> Ev_unlock \<and> (\<forall>a. e \<noteq> Ev_sigaction a))
       (drop (length (trace s)) (trace s')))"
proof -
  obtain c u where
    f: "func thread_id (gum_cpu_context_from_linux (thread_uc s thread_id)) (user_data s) = (c, u)"
    by (cases "func thread_id (gum_cpu_context_from_linux (thread_uc s thread_id)) (user_data s)")
  show ?thesis
    using assms f by (simp add: same_thread_result)
qed

theorem same_thread_frame_witness:
  "(1 :: nat) = gum_process_get_current_thread_id quiet_kernel \<and>
   lock_owner (snd (gum_process_modify_thread quiet_kernel 1 redirecting_visitor idle_process))
     = None \<and>
   \<not> gum_modify_thread_did_load_cpu_context
       (snd (gum_process_modify_thread quiet_kernel 1 redirecting_visitor idle_process)) \<and>
   hijack_action (snd (gum_process_modify_thread quiet_kernel 1 redirecting_visitor idle_process))
     = \<lparr> sa_sigaction = SIG_DFL, sa_mask = {}, sa_flags = 0 \<rparr>"
proof -
  have a: "(1 :: nat) = gum_process_get_current_thread_id quiet_kernel"
    by (simp add: gum_process_get_current_thread_id_def quiet_kernel_def)
  show ?thesis
    using a same_thread_frame [OF a, of redirecting_visitor idle_process]
    by (simp add: Let_def idle_process_def)
qed

section \<open>Properties of the scanner on the example lines\<close>

lemmas scanner_defs =
  sscanf_range_line_def sscanf_module_line_def scan_hex_def scan_str_def expect_char_def
  scan_sign_def scan_0x_def isspace_def isxdigit_def xdigit_value_def hex_value_def
  strtoul_value_def input_failure_def

lemma scan_range_lines:
  "sscanf_range_line maps_line_text = (3, 0x400000, 0x40b000, ''r-xp'')"
  "sscanf_range_line maps_line_data = (3, 0x60a000, 0x60c000, ''rw-p'')"
  by (simp_all add: maps_line_text_def maps_line_data_def scanner_defs)

lemma scan_module_lines:
  "sscanf_module_line maps_line_text = (2, 0x400000, ''/bin/cat'')"
  "sscanf_module_line maps_line_data = (2, 0x60a000, ''/bin/cat'')"
  "sscanf_module_line maps_line_heap = (2, 0x60c000, ''[heap]'')"
  "sscanf_module_line maps_line_libc = (2, 0x7f0000000000, ''/lib/libc.so.6'')"
  "sscanf_module_line maps_line_anon = (1, 0x7f00003c6000, [])"
  "sscanf_module_line maps_line_vdso = (2, 0x7ffff7ffa000, ''[vdso]'')"
  by (simp_all add: maps_line_text_def maps_line_data_def maps_line_heap_def maps_line_libc_def
      maps_line_anon_def maps_line_vdso_def scanner_defs)

lemma example_magic:
  "memcmp_elf_magic example_memory 0x400000 = Some True"
  "memcmp_elf_magic example_memory 0x7f0000000000 = Some True"
  "memcmp_elf_magic example_memory 0x60a000 = Some False"
  by (simp_all add: memcmp_elf_magic_def example_memory_def example_bytes_def magic_byte_def
      elf_magic_def Let_def upt_rec)

lemma emit_simps:
  "fst (emit x r) = fst r" "fst (snd (emit x r)) = fst (snd r)"
  "snd (snd (emit x r)) = x # snd (snd r)"
  by (simp_all add: emit_def split_beta)

section \<open>Properties of the range enumerator\<close>

text \<open>
  The loop is the visitor offered, in file order, the ranges of the lines whose protection
  includes the requested one, among the lines before the first that does not parse. A line
  that does not parse stops the process at the assertion, unless the visitor has stopped
  the enumeration before.
\<close>

lemma enumerate_ranges_loop_visit:
  "enumerate_ranges_loop prot func lines u =
     (case visit_until_stop (\<lambda>(r, cur_prot). func r cur_prot)
             (map range_of_line (filter (line_satisfies prot) (takeWhile line_parses lines))) u of
        (carried_on, u', emitted) \<Rightarrow>
          (if carried_on \<and> \<not> list_all line_parses lines then Aborted Assertion_failed
           else Returned, u', emitted))"
proof (induction lines arbitrary: u)
  case Nil
  show ?case by simp
next
  case (Cons line rest)
  obtain n start e perms where sc: "sscanf_range_line line = (n, start, e, perms)"
    by (cases "sscanf_range_line line")
  show ?case
  proof (cases "n = 3")
    case False
    with sc show ?thesis by (simp add: line_parses_def)
  next
    case True
    show ?thesis
    proof (cases "line_satisfies prot line")
      case False
      with sc True Cons.IH show ?thesis
        by (simp add: line_parses_def line_satisfies_def range_of_line_def)
    next
      case sat: True
      obtain c u' where f: "func \<lparr> range_base_address = start, range_size = e - start \<rparr>
         (gum_page_protection_from_proc_perms_string perms) u = (c, u')"
        by (cases "func \<lparr> range_base_address = start, range_size = e - start \<rparr>
         (gum_page_protection_from_proc_perms_string perms) u")
      from sc True sat f Cons.IH [of u'] show ?thesis
        by (simp add: line_parses_def line_satisfies_def range_of_line_def emit_def
            split: prod.splits)
    qed
  qed
qed

lemma visit_all:
  "(\<And>x u. fst (f x u)) \<Longrightarrow> \<exists>u'. visit_until_stop f xs u = (True, u', xs)"
proof (induction xs arbitrary: u)
  case Nil
  show ?case by simp
next
  case (Cons x xs)
  obtain c u1 where f: "f x u = (c, u1)" by (cases "f x u")
  with Cons.prems [of x u] have c by simp
  moreover obtain u2 where "visit_until_stop f xs u1 = (True, u2, xs)"
    using Cons.IH [OF Cons.prems] by blast
  ultimately show ?case using f by simp
qed

lemma perms_decoding:
  "gum_page_protection_from_proc_perms_string perms =
      (if perms_at perms 0 = CHR ''r'' then GUM_PAGE_READ else GUM_PAGE_NO_ACCESS) OR
      (if perms_at perms 1 = CHR ''w'' then GUM_PAGE_WRITE else GUM_PAGE_NO_ACCESS) OR
      (if perms_at perms 2 = CHR ''x'' then GUM_PAGE_EXECUTE else GUM_PAGE_NO_ACCESS)"
  by (simp add: gum_page_protection_from_proc_perms_string_def Let_def GUM_PAGE_NO_ACCESS_def
     or.commute or.left_commute or.assoc)

lemma perms_decoding_examples:
  "gum_page_protection_from_proc_perms_string ''---p'' = GUM_PAGE_NO_ACCESS \<and>
   gum_page_protection_from_proc_perms_string ''rwxp'' =
     GUM_PAGE_READ OR GUM_PAGE_WRITE OR GUM_PAGE_EXECUTE"
  by (simp add: gum_page_protection_from_proc_perms_string_def Let_def perms_at_def
      GUM_PAGE_NO_ACCESS_def ac_simps)

text \<open>
  C7, as stated, fails: the claim has a pair emitted for each maps line whose protection
  includes the requested one. The loop runs \<^verbatim>\<open>while (carry_on && ...)\<close>: once the visitor
  has returned FALSE no further line is read. Here both lines are readable, Read is
  requested, the visitor returns FALSE at its first call, and the function returns having
  emitted the first line only.
\<close>

theorem enumerate_ranges_counterexample:
  "gum_linux_enumerate_ranges (\<lambda>pid. Some [maps_line_text, maps_line_data]) 7 GUM_PAGE_READ
      stopping_range_visitor ()
     = (Returned, (), [range_of_line maps_line_text]) \<and>
   line_satisfies GUM_PAGE_READ maps_line_data \<and>
   range_of_line maps_line_data \<noteq> range_of_line maps_line_text"
  by (simp add: gum_linux_enumerate_ranges_def scan_range_lines range_of_line_def
      line_satisfies_def stopping_range_visitor_def
      gum_page_protection_from_proc_perms_string_def perms_at_def Let_def
      GUM_PAGE_READ_def GUM_PAGE_WRITE_def GUM_PAGE_EXECUTE_def GUM_PAGE_NO_ACCESS_def)

text \<open>
  C7, amended. \<^verbatim>\<open>gum_linux_enumerate_ranges\<close> emits, for each maps line it reads before
  the visitor returns FALSE, the pair (MemoryRange with base = parsed start and size =
  parsed end minus start, current protection) if and only if
  \<^verbatim>\<open>(current_protection & requested_protection) == requested_protection\<close>: what it emits
  is what the visitor accepts, in file order, of the pairs of the satisfying lines (among
  the lines before one that does not parse); when the visitor never returns FALSE and every
  line parses, it returns having emitted exactly the pairs of all satisfying lines. The
  current protection is decoded from the permissions string by: position 0 equal to 'r'
  contributes Read, position 1 equal to 'w' contributes Write, position 2 equal to 'x'
  contributes Execute, and nothing else contributes; "---p" decodes to NoAccess and "rwxp"
  to Read|Write|Execute.
\<close>

theorem enumerate_ranges_emits:
  assumes "proc_maps pid = Some lines"
  shows
    "snd (snd (gum_linux_enumerate_ranges proc_maps pid prot func u)) =
       snd (snd (visit_until_stop (\<lambda>(r, cur_prot). func r cur_prot)
          (map range_of_line (filter (line_satisfies prot) (takeWhile line_parses lines))) u)) \<and>
     ((\<forall>r cur_prot v. fst (func r cur_prot v)) \<and> list_all line_parses lines \<longrightarrow>
        fst (gum_linux_enumerate_ranges proc_maps pid prot func u) = Returned \<and>
        snd (snd (gum_linux_enumerate_ranges proc_maps pid prot func u)) =
          map range_of_line (filter (line_satisfies prot) lines)) \<and>
     (\<forall>line n start e perms. sscanf_range_line line = (n, start, e, perms) \<longrightarrow>
        range_of_line line =
          (\<lparr> range_base_address = start, range_size = e - start \<rparr>,
           gum_page_protection_from_proc_perms_string perms) \<and>
        (line_satisfies prot line \<longleftrightarrow>
           gum_page_protection_from_proc_perms_string perms AND prot = prot)) \<and>
     (\<forall>perms. gum_page_protection_from_proc_perms_string perms =
        (if perms_at perms 0 = CHR ''r'' then GUM_PAGE_READ else GUM_PAGE_NO_ACCESS) OR
        (if perms_at perms 1 = CHR ''w'' then GUM_PAGE_WRITE else GUM_PAGE_NO_ACCESS) OR
        (if perms_at perms 2 = CHR ''x'' then GUM_PAGE_EXECUTE else GUM_PAGE_NO_ACCESS)) \<and>
     gum_page_protection_from_proc_perms_string ''---p'' = GUM_PAGE_NO_ACCESS \<and>
     gum_page_protection_from_proc_perms_string ''rwxp'' =
       GUM_PAGE_READ OR GUM_PAGE_WRITE OR GUM_PAGE_EXECUTE"
proof -
  let ?f = "\<lambda>(r, cur_prot). func r cur_prot"
  have run: "gum_linux_enumerate_ranges proc_maps pid prot func u =
      enumerate_ranges_loop prot func lines u"
    using assms by (simp add: gum_linux_enumerate_ranges_def)
  have general: "snd (snd (gum_linux_enumerate_ranges proc_maps pid prot func u)) =
       snd (snd (visit_until_stop ?f
          (map range_of_line (filter (line_satisfies prot) (takeWhile line_parses lines))) u))"
    unfolding run enumerate_ranges_loop_visit by (simp split: prod.splits)
  have full: "fst (gum_linux_enumerate_ranges proc_maps pid prot func u) = Returned \<and>
        snd (snd (gum_linux_enumerate_ranges proc_maps pid prot func u)) =
          map range_of_line (filter (line_satisfies prot) lines)"
    if never: "\<forall>r cur_prot v. fst (func r cur_prot v)" and parse: "list_all line_parses lines"
  proof -
    from parse have tw: "takeWhile line_parses lines = lines"
      by (simp add: list_all_iff)
    from never have "\<And>x v. fst (?f x v)" by (simp add: split_beta)
    from visit_all [of ?f, OF this]
    obtain u' where "visit_until_stop ?f
        (map range_of_line (filter (line_satisfies prot) lines)) u
        = (True, u', map range_of_line (filter (line_satisfies prot) lines))"
      by blast
    with parse show ?thesis
      unfolding run enumerate_ranges_loop_visit tw by simp
  qed
  have lines: "range_of_line line =
          (\<lparr> range_base_address = start, range_size = e - start \<rparr>,
           gum_page_protection_from_proc_perms_string perms) \<and>
        (line_satisfies prot line \<longleftrightarrow>
           gum_page_protection_from_proc_perms_string perms AND prot = prot)"
    if "sscanf_range_line line = (n, start, e, perms)" for line n start e perms
    using that by (simp add: range_of_line_def line_satisfies_def)
  from general full lines perms_decoding perms_decoding_examples show ?thesis by blast
qed

theorem enumerate_ranges_emits_witness:
  "list_all line_parses [maps_line_text, maps_line_data] \<and>
   gum_linux_enumerate_ranges (\<lambda>pid. Some [maps_line_text, maps_line_data]) 7
       GUM_PAGE_WRITE continuing_range_visitor ()
     = (Returned, (), [(\<lparr> range_base_address = 0x60a000, range_size = 0x2000 \<rparr>,
          GUM_PAGE_READ OR GUM_PAGE_WRITE)]) \<and>
   sscanf_range_line maps_line_text = (3, 0x400000, 0x40b000, ''r-xp'') \<and>
   \<not> line_satisfies GUM_PAGE_WRITE maps_line_text"
proof -
  let ?run = "gum_linux_enumerate_ranges (\<lambda>pid. Some [maps_line_text, maps_line_data]) 7
       GUM_PAGE_WRITE continuing_range_visitor ()"
  note t = enumerate_ranges_emits [where proc_maps = "\<lambda>pid. Some [maps_line_text, maps_line_data]"
        and pid = 7 and lines = "[maps_line_text, maps_line_data]"
        and func = continuing_range_visitor and prot = GUM_PAGE_WRITE and u = "()", OF refl]
  have b: "\<forall>r cur_prot v. fst (continuing_range_visitor r cur_prot v)"
    by (simp add: continuing_range_visitor_def)
  have c: "list_all line_parses [maps_line_text, maps_line_data]"
    by (simp add: line_parses_def scan_range_lines)
  have d: "map range_of_line
             (filter (line_satisfies GUM_PAGE_WRITE) [maps_line_text, maps_line_data])
     = [(\<lparr> range_base_address = 0x60a000, range_size = 0x2000 \<rparr>,
          GUM_PAGE_READ OR GUM_PAGE_WRITE)]"
    by (simp add: scan_range_lines range_of_line_def line_satisfies_def
        gum_page_protection_from_proc_perms_string_def perms_at_def Let_def
        GUM_PAGE_READ_def GUM_PAGE_WRITE_def GUM_PAGE_EXECUTE_def GUM_PAGE_NO_ACCESS_def)
  have "fst ?run = Returned \<and>
        snd (snd ?run) = map range_of_line
             (filter (line_satisfies GUM_PAGE_WRITE) [maps_line_text, maps_line_data])"
    using b c t [THEN conjunct2, THEN conjunct1]
    by blast
  then have "fst ?run = Returned \<and> snd (snd ?run) =
      [(\<lparr> range_base_address = 0x60a000, range_size = 0x2000 \<rparr>,
          GUM_PAGE_READ OR GUM_PAGE_WRITE)]"
    unfolding d .
  then have run: "?run = (Returned, (), [(\<lparr> range_base_address = 0x60a000, range_size = 0x2000 \<rparr>,
          GUM_PAGE_READ OR GUM_PAGE_WRITE)])"
    by (cases ?run) simp
  from t [THEN conjunct2, THEN conjunct2, THEN conjunct1, rule_format, OF scan_range_lines(1)]
  have "line_satisfies GUM_PAGE_WRITE maps_line_text \<longleftrightarrow>
      gum_page_protection_from_proc_perms_string ''r-xp'' AND GUM_PAGE_WRITE = GUM_PAGE_WRITE"
    by blast
  then have "\<not> line_satisfies GUM_PAGE_WRITE maps_line_text"
    by (simp add: gum_page_protection_from_proc_perms_string_def perms_at_def Let_def
        GUM_PAGE_READ_def GUM_PAGE_WRITE_def GUM_PAGE_EXECUTE_def GUM_PAGE_NO_ACCESS_def)
  with c run scan_range_lines(1) show ?thesis by blast
qed

section \<open>Properties of the module enumerator\<close>

lemma memcmp_elf_magic_True:
  "memcmp_elf_magic m start = Some True \<Longrightarrow> has_elf_magic m start"
  by (auto simp: memcmp_elf_magic_def has_elf_magic_def elf_magic_def Let_def upt_rec
      split: if_splits)

text \<open>
  Every record the loop emits comes from a line from which two items were read, whose
  path does not begin with a bracket and at whose start the magic stands.
\<close>

lemma enumerate_modules_loop_sound:
  "(name, start, path) \<in> set (snd (snd (enumerate_modules_loop m func lines prev_path u))) \<Longrightarrow>
     take 1 path \<noteq> ''['' \<and> has_elf_magic m start \<and> name = g_path_get_basename path \<and>
     (\<exists>line \<in> set lines. sscanf_module_line line = (2, start, path))"
proof (induction lines arbitrary: prev_path u)
  case Nil
  then show ?case by simp
next
  case (Cons line rest)
  obtain n st p where sc: "sscanf_module_line line = (n, st, p)"
    by (cases "sscanf_module_line line")
  obtain c u' where f: "func (g_path_get_basename p) st p u = (c, u')"
    by (cases "func (g_path_get_basename p) st p u")
  from Cons.prems sc f
  consider "(name, start, path) \<in> set (snd (snd (enumerate_modules_loop m func rest prev_path u)))"
    | "(name, start, path) \<in> set (snd (snd (enumerate_modules_loop m func rest p u')))"
    | "(name, start, path) = (g_path_get_basename p, st, p)" "n = 2" "take 1 p \<noteq> ''[''"
      "memcmp_elf_magic m st = Some True"
    by (auto simp: emit_simps Let_def split: if_splits option.splits bool.splits)
  then show ?case
  proof cases
    case 1
    from Cons.IH [OF 1] show ?thesis by auto
  next
    case 2
    from Cons.IH [OF 2] show ?thesis by auto
  next
    case 3
    with sc memcmp_elf_magic_True [of m st] show ?thesis by auto
  qed
qed

text \<open>
  No emitted record has the path of the record emitted before it, nor the first the path
  \<^verbatim>\<open>prev_path\<close> holds when the loop is entered.
\<close>

lemma enumerate_modules_loop_adjacent:
  "distinct_adj
     (prev_path # map module_path (snd (snd (enumerate_modules_loop m func lines prev_path u))))"
proof (induction lines arbitrary: prev_path u)
  case Nil
  show ?case by simp
next
  case (Cons line rest)
  obtain n st p where sc: "sscanf_module_line line = (n, st, p)"
    by (cases "sscanf_module_line line")
  obtain c u' where f: "func (g_path_get_basename p) st p u = (c, u')"
    by (cases "func (g_path_get_basename p) st p u")
  from Cons.IH [of prev_path u] Cons.IH [of p u'] sc f show ?case
    by (auto simp: emit_simps Let_def module_path_def distinct_adj_Cons_Cons
        split: if_splits option.splits bool.splits)
qed

lemma enumerate_modules_loop_skips:
  "enumerate_modules_loop m func (filter (\<lambda>l. fst (sscanf_module_line l) \<noteq> 1) lines) prev_path u
     = enumerate_modules_loop m func lines prev_path u"
proof (induction lines arbitrary: prev_path u)
  case Nil
  show ?case by simp
next
  case (Cons line rest)
  obtain n st p where sc: "sscanf_module_line line = (n, st, p)"
    by (cases "sscanf_module_line line")
  obtain c u' where f: "func (g_path_get_basename p) st p u = (c, u')"
    by (cases "func (g_path_get_basename p) st p u")
  from Cons.IH sc f show ?case
    by (simp add: Let_def split: option.splits bool.splits)
qed

text \<open>The records are emitted in the order of the lines they come from.\<close>

lemma enumerate_modules_loop_subseq:
  "subseq (snd (snd (enumerate_modules_loop m func lines prev_path u)))
     (map module_of_line (filter line_has_path lines))"
proof (induction lines arbitrary: prev_path u)
  case Nil
  show ?case by simp
next
  case (Cons line rest)
  obtain n st p where sc: "sscanf_module_line line = (n, st, p)"
    by (cases "sscanf_module_line line")
  obtain c u' where f: "func (g_path_get_basename p) st p u = (c, u')"
    by (cases "func (g_path_get_basename p) st p u")
  from Cons.IH [of prev_path u] Cons.IH [of p u'] sc f show ?case
    by (auto simp: emit_simps Let_def module_of_line_def line_has_path_def
        split: if_splits option.splits bool.splits)
qed

text \<open>
  A run of lines with one path: when \<^verbatim>\<open>prev_path\<close> is that path the loop passes over the
  run; from any state it emits at most one record for it.
\<close>

lemma loop_same_path:
  "\<forall>line \<in> set run. line_has_path line \<and> module_path (module_of_line line) = p \<Longrightarrow>
     enumerate_modules_loop m func (run @ post) p u = enumerate_modules_loop m func post p u"
proof (induction run)
  case Nil
  show ?case by simp
next
  case (Cons line run)
  obtain n st q where sc: "sscanf_module_line line = (n, st, q)"
    by (cases "sscanf_module_line line")
  with Cons.prems have "n = 2" "q = p"
    by (simp_all add: line_has_path_def module_of_line_def module_path_def)
  with sc Cons show ?case by simp
qed

lemma loop_run:
  "\<forall>line \<in> set run. line_has_path line \<and> module_path (module_of_line line) = p \<Longrightarrow>
     \<exists>e_run e_post.
       snd (snd (enumerate_modules_loop m func (run @ post) prev_path u)) = e_run @ e_post \<and>
       length e_run \<le> 1 \<and>
       (e_post = [] \<or>
        (\<exists>prev' u'. e_post = snd (snd (enumerate_modules_loop m func post prev' u'))))"
proof (induction run arbitrary: prev_path u)
  case Nil
  show ?case
    by (intro exI [of _ "[]"]
        exI [of _ "snd (snd (enumerate_modules_loop m func post prev_path u))"]) auto
next
  case (Cons line run)
  obtain n st q where sc0: "sscanf_module_line line = (n, st, q)"
    by (cases "sscanf_module_line line")
  with Cons.prems have "n = 2" "q = p"
    by (simp_all add: line_has_path_def module_of_line_def module_path_def)
  with sc0 have sc: "sscanf_module_line line = (2, st, p)" by simp
  from Cons.prems have rest: "\<forall>line \<in> set run. line_has_path line \<and> module_path (module_of_line line) = p"
    by simp
  obtain c u' where f: "func (g_path_get_basename p) st p u = (c, u')"
    by (cases "func (g_path_get_basename p) st p u")
  let ?r = "(g_path_get_basename p, st, p)"
  have step: "enumerate_modules_loop m func ((line # run) @ post) prev_path u =
      (if p = prev_path \<or> take 1 p = ''[''
       then enumerate_modules_loop m func (run @ post) prev_path u
       else case memcmp_elf_magic m st of
              None \<Rightarrow> (Aborted Segfault, u, [])
            | Some False \<Rightarrow> enumerate_modules_loop m func (run @ post) prev_path u
            | Some True \<Rightarrow>
                if c then emit ?r (enumerate_modules_loop m func (run @ post) p u')
                else (Returned, u', [?r]))"
    using sc f by (simp add: Let_def split: option.splits bool.splits)
  note ih = Cons.IH [OF rest, of prev_path u]
  show ?case
  proof (cases "p = prev_path \<or> take 1 p = ''[''")
    case True
    with step ih show ?thesis by simp
  next
    case differs: False
    show ?thesis
    proof (cases "memcmp_elf_magic m st")
      case None
      with step differs show ?thesis
        by (intro exI [of _ "[]"] exI [of _ "[]"]) simp
    next
      case (Some eq)
      show ?thesis
      proof (cases eq)
        case False
        with step differs Some ih show ?thesis by simp
      next
        case True
        show ?thesis
        proof (cases c)
          case False
          with step differs Some True show ?thesis
            by (intro exI [of _ "[?r]"] exI [of _ "[]"]) simp
        next
          case c: True
          with step differs Some True
          have "snd (snd (enumerate_modules_loop m func ((line # run) @ post) prev_path u))
              = [?r] @ snd (snd (enumerate_modules_loop m func post p u'))"
            by (simp add: emit_simps loop_same_path [OF rest])
          then show ?thesis
            by (intro exI [of _ "[?r]"]
                exI [of _ "snd (snd (enumerate_modules_loop m func post p u'))"]) auto
        qed
      qed
    qed
  qed
qed

text \<open>What the loop emits for a file begins with what it emits for a prefix of the file.\<close>

lemma loop_prefix:
  "\<exists>rest. snd (snd (enumerate_modules_loop m func (pre @ ys) prev_path u)) =
       snd (snd (enumerate_modules_loop m func pre prev_path u)) @ rest \<and>
     (rest = [] \<or> (\<exists>prev' u'. rest = snd (snd (enumerate_modules_loop m func ys prev' u'))))"
proof (induction pre arbitrary: prev_path u)
  case Nil
  show ?case by auto
next
  case (Cons line pre)
  obtain n st p where sc: "sscanf_module_line line = (n, st, p)"
    by (cases "sscanf_module_line line")
  obtain c u' where f: "func (g_path_get_basename p) st p u = (c, u')"
    by (cases "func (g_path_get_basename p) st p u")
  from Cons.IH [of prev_path u] Cons.IH [of p u'] sc f show ?case
    by (auto simp: emit_simps Let_def split: if_splits option.splits bool.splits)
qed

lemma one_emission_per_run:
  assumes "\<forall>line \<in> set run. line_has_path line \<and> module_path (module_of_line line) = p"
  shows "\<exists>e_run e_post.
       snd (snd (enumerate_modules_loop m func (pre @ run @ post) prev_path u)) =
         snd (snd (enumerate_modules_loop m func pre prev_path u)) @ e_run @ e_post \<and>
       length e_run \<le> 1 \<and>
       (e_post = [] \<or>
        (\<exists>prev' u'. e_post = snd (snd (enumerate_modules_loop m func post prev' u'))))"
proof -
  from loop_prefix [of m func pre "run @ post" prev_path u]
  obtain rest where r: "snd (snd (enumerate_modules_loop m func (pre @ run @ post) prev_path u)) =
       snd (snd (enumerate_modules_loop m func pre prev_path u)) @ rest"
    and c: "rest = [] \<or> (\<exists>prev' u'. rest = snd (snd (enumerate_modules_loop m func (run @ post) prev' u')))"
    by blast
  from c show ?thesis
  proof
    assume "rest = []"
    with r show ?thesis by (intro exI [of _ "[]"] exI [of _ "[]"]) auto
  next
    assume "\<exists>prev' u'. rest = snd (snd (enumerate_modules_loop m func (run @ post) prev' u'))"
    then obtain prev' u' where
      "rest = snd (snd (enumerate_modules_loop m func (run @ post) prev' u'))" by blast
    with loop_run [OF assms, of m func post prev' u'] r show ?thesis by auto
  qed
qed

lemma example_modules:
  "gum_process_enumerate_modules (Some example_maps) example_memory continuing_module_visitor ()
     = (Returned, (), [(''cat'', 0x400000, ''/bin/cat''),
                       (''libc.so.6'', 0x7f0000000000, ''/lib/libc.so.6'')])"
  by (simp add: gum_process_enumerate_modules_def example_maps_def scan_module_lines
      example_magic continuing_module_visitor_def g_path_get_basename_def emit_def)

text \<open>
  C6. Every record \<^verbatim>\<open>gum_process_enumerate_modules\<close> emits has a path that does not begin
  with '[', has the ELF magic 7F 45 4C 46 in the four bytes at its base address, carries
  the basename of its path as its name, and comes from a maps line from which both the start
  address and a path were read; no emitted record has the same path as the record emitted
  just before it. The records are emitted in the order of their lines, and a contiguous run
  of lines with the same path gets at most one of them: what is emitted is what is emitted
  for the lines before the run, then at most one record, then what the loop emits for the
  lines after the run, if it gets there. Lines without a path field (one item read) are
  skipped: the enumeration is the enumeration of the file without them.
\<close>

theorem enumerate_modules_emits:
  assumes "gum_process_enumerate_modules (Some lines) m func u = (st, u', emitted)"
  shows "(\<forall>(name, start, path) \<in> set emitted.
            take 1 path \<noteq> ''['' \<and> has_elf_magic m start \<and>
            name = g_path_get_basename path \<and>
            (\<exists>line \<in> set lines. sscanf_module_line line = (2, start, path))) \<and>
         distinct_adj (map module_path emitted) \<and>
         subseq emitted (map module_of_line (filter line_has_path lines)) \<and>
         (\<forall>pre run post p.
            lines = pre @ run @ post \<and>
            (\<forall>line \<in> set run. line_has_path line \<and> module_path (module_of_line line) = p) \<longrightarrow>
            (\<exists>e_run e_post.
               emitted = snd (snd (gum_process_enumerate_modules (Some pre) m func u))
                           @ e_run @ e_post \<and>
               length e_run \<le> 1 \<and>
               (e_post = [] \<or>
                (\<exists>prev' v. e_post = snd (snd (enumerate_modules_loop m func post prev' v)))))) \<and>
         gum_process_enumerate_modules
           (Some (filter (\<lambda>line. fst (sscanf_module_line line) \<noteq> 1) lines)) m func u
           = (st, u', emitted)"
proof -
  from assms have run: "enumerate_modules_loop m func lines [] u = (st, u', emitted)"
    by (simp add: gum_process_enumerate_modules_def)
  have sound: "take 1 path \<noteq> ''['' \<and> has_elf_magic m start \<and>
        name = g_path_get_basename path \<and>
        (\<exists>line \<in> set lines. sscanf_module_line line = (2, start, path))"
    if "(name, start, path) \<in> set emitted" for name start path
    using that enumerate_modules_loop_sound [of name start path m func lines "[]" u] run
    by simp
  have adjacent: "distinct_adj (map module_path emitted)"
    using enumerate_modules_loop_adjacent [of "[]" m func lines u] run
    by (auto dest: distinct_adj_ConsD)
  have ordered: "subseq emitted (map module_of_line (filter line_has_path lines))"
    using enumerate_modules_loop_subseq [of m func lines "[]" u] run by simp
  have runs: "\<exists>e_run e_post.
               emitted = snd (snd (gum_process_enumerate_modules (Some pre) m func u))
                           @ e_run @ e_post \<and>
               length e_run \<le> 1 \<and>
               (e_post = [] \<or>
                (\<exists>prev' v. e_post = snd (snd (enumerate_modules_loop m func post prev' v))))"
    if "lines = pre @ run @ post \<and>
        (\<forall>line \<in> set run. line_has_path line \<and> module_path (module_of_line line) = p)"
    for pre run post p
    using that run one_emission_per_run [of run p m func pre post "[]" u]
    by (simp add: gum_process_enumerate_modules_def)
  have skipped: "gum_process_enumerate_modules
           (Some (filter (\<lambda>line. fst (sscanf_module_line line) \<noteq> 1) lines)) m func u
           = (st, u', emitted)"
    using run by (simp add: gum_process_enumerate_modules_def enumerate_modules_loop_skips)
  from sound adjacent ordered runs skipped show ?thesis by blast
qed

theorem enumerate_modules_emits_witness:
  "gum_process_enumerate_modules (Some example_maps) example_memory continuing_module_visitor ()
     = (Returned, (), [(''cat'', 0x400000, ''/bin/cat''),
                       (''libc.so.6'', 0x7f0000000000, ''/lib/libc.so.6'')]) \<and>
   has_elf_magic example_memory 0x400000 \<and>
   has_elf_magic example_memory 0x7f0000000000 \<and>
   distinct_adj [''/bin/cat'', ''/lib/libc.so.6''] \<and>
   (\<exists>e_run e_post.
      [(''cat'', 0x400000 :: GumAddress, ''/bin/cat''),
       (''libc.so.6'', 0x7f0000000000, ''/lib/libc.so.6'')]
        = e_run @ e_post \<and> length e_run \<le> 1)"
proof -
  note t = enumerate_modules_emits [OF example_modules]
  have cat: "\<forall>line \<in> set [maps_line_text, maps_line_data].
      line_has_path line \<and> module_path (module_of_line line) = ''/bin/cat''"
    by (simp add: line_has_path_def module_of_line_def module_path_def scan_module_lines)
  have split: "example_maps = [] @ [maps_line_text, maps_line_data] @
      [maps_line_heap, maps_line_libc, maps_line_anon, maps_line_vdso]"
    by (simp add: example_maps_def)
  from t [THEN conjunct2, THEN conjunct2, THEN conjunct2, THEN conjunct1, rule_format,
      OF conjI, OF split cat]
  obtain e_run e_post where
    e: "[(''cat'', 0x400000 :: GumAddress, ''/bin/cat''),
         (''libc.so.6'', 0x7f0000000000, ''/lib/libc.so.6'')]
        = snd (snd (gum_process_enumerate_modules (Some []) example_memory
                      continuing_module_visitor ())) @ e_run @ e_post"
    and l: "length e_run \<le> 1"
    by blast
  have "snd (snd (gum_process_enumerate_modules (Some []) example_memory
                      continuing_module_visitor ())) = []"
    by (simp add: gum_process_enumerate_modules_def)
  with e have "[(''cat'', 0x400000 :: GumAddress, ''/bin/cat''),
         (''libc.so.6'', 0x7f0000000000, ''/lib/libc.so.6'')] = e_run @ e_post"
    by simp
  with l have runs: "\<exists>e_run e_post.
      [(''cat'', 0x400000 :: GumAddress, ''/bin/cat''),
       (''libc.so.6'', 0x7f0000000000, ''/lib/libc.so.6'')]
        = e_run @ e_post \<and> length e_run \<le> 1"
    by blast
  from t have "has_elf_magic example_memory 0x400000 \<and>
      has_elf_magic example_memory 0x7f0000000000 \<and>
      distinct_adj [''/bin/cat'', ''/lib/libc.so.6'']"
    by (simp add: module_path_def)
  with runs example_modules show ?thesis
    by blast
qed

section \<open>Properties of the export resolver\<close>

text \<open>The resolver on the example: the module is found, its file mapped, its table located.\<close>

lemma example_find_module:
  "gum_process_enumerate_modules (Some example_maps) example_memory
     gum_store_base_and_path_if_name_matches
     \<lparr> find_module_name = ''libc.so.6'', find_base = 0, find_path = None \<rparr>
   = (Returned,
      \<lparr> find_module_name = ''libc.so.6'', find_base = 0x7f0000000000,
        find_path = Some ''/lib/libc.so.6'' \<rparr>,
      [(''cat'', 0x400000, ''/bin/cat''), (''libc.so.6'', 0x7f0000000000, ''/lib/libc.so.6'')])"
  by (simp add: gum_process_enumerate_modules_def example_maps_def scan_module_lines
      example_magic gum_store_base_and_path_if_name_matches_def g_path_get_basename_def emit_def
      Let_def)

lemma example_sections:
  "section_headers_loop example_memory 0x10000 example_ehdr [0..<unat (e_shnum example_ehdr)]
     \<lparr> dynsym_section_offset = 0, dynsym_section_size = 0,
       dynsym_entry_size = 0, dynsym_strtab = 0 \<rparr> = Inr example_dynsym"
  by (simp add: example_ehdr_def example_memory_def example_shdrs_def example_dynsym_def
      SHT_DYNSYM_def upt_rec)

lemma example_find_dynamic_symbols:
  "find_dynamic_symbols example_os ''libc.so.6'' =
     Inr (0x7f0000000000, 0x10000, example_dynsym, take 4 example_calls, drop 4 example_calls)"
proof -
  have m: "mem example_os = example_memory" "proc_self_maps example_os = Some example_maps"
    by (simp_all add: example_os_def)
  have e: "ehdr_at example_memory 0x10000 = Some example_ehdr"
    by (simp add: example_memory_def)
  have o: "sys_open example_os ''/lib/libc.so.6'' = 3" "sys_lseek_end example_os 3 = 0x1000"
    "sys_mmap example_os 0x1000 3 = 0x10000"
    by (simp_all add: example_os_def)
  have t: "e_type example_ehdr = ET_DYN" by (simp add: example_ehdr_def ET_DYN_def)
  have d: "dynsym_section_offset example_dynsym \<noteq> 0" by (simp add: example_dynsym_def)
  show ?thesis
    unfolding find_dynamic_symbols_def m
    by (simp add: example_find_module o e t d example_sections MAP_FAILED_def beach_def
        example_calls_def Let_def)
qed


text \<open>The equation of the symbol loop is unfolded by hand, one iteration at a time.\<close>

declare enumerate_symbols_loop.simps [simp del]

lemma example_exports:
  "gum_module_enumerate_exports example_os ''libc.so.6'' continuing_export_visitor () =
     (Returned, (), [(0x10301, 0x7f0000001000), (0x10314, 0x7f0000002000)], example_calls)"
proof -
  have m: "mem example_os = example_memory" by (simp add: example_os_def)
  have loop: "enumerate_symbols_loop example_memory 0x10000 0x7f0000000000 example_dynsym
      continuing_export_visitor 0 () =
      (Returned, (), [(0x10301, 0x7f0000001000), (0x10314, 0x7f0000002000)])"
    by (simp add: enumerate_symbols_loop.simps example_dynsym_def symbol_address_def
       example_memory_def example_symbols_def is_exported_function_def export_of_def
       symbol_malloc_def symbol_helper_def symbol_gmon_def symbol_free_def
       GUM_ELF_ST_BIND_def GUM_ELF_ST_TYPE_def STB_GLOBAL_def STB_WEAK_def STT_FUNC_def
       SHN_UNDEF_def continuing_export_visitor_def emit_def)
  show ?thesis
    by (simp add: gum_module_enumerate_exports_def example_find_dynamic_symbols m loop
        example_calls_def)
qed







text \<open>
  The symbol loop run with the visitor of \<^verbatim>\<open>gum_module_find_export_by_name\<close>, against the
  same loop run to its end with a visitor that never stops: it stops at the first export
  whose name is the one looked for, and stores its address.
\<close>

lemma emit_Returned:
  "emit x r = (Returned, u', es) \<longleftrightarrow> (\<exists>es'. r = (Returned, u', es') \<and> es = x # es')"
  by (cases r) (auto simp: emit_def)

lemma find_simulation:
  "enumerate_symbols_loop m b mb d f i u = (Returned, u', es) \<Longrightarrow>
     \<forall>x \<in> set es. cstr_at m (fst x) \<noteq> None \<Longrightarrow>
     \<forall>m n a v. \<exists>v'. f m n a v = Some (True, v') \<Longrightarrow>
     enumerate_symbols_loop m b mb d gum_store_address_if_export_name_matches i ctx =
       (Returned,
        (case find (export_named m (find_symbol_name ctx)) es of
           None \<Rightarrow> ctx
         | Some x \<Rightarrow> ctx \<lparr> find_result := snd x \<rparr>),
        takeWhile (\<lambda>x. \<not> export_named m (find_symbol_name ctx) x) es @
        take 1 (dropWhile (\<lambda>x. \<not> export_named m (find_symbol_name ctx) x) es))"
proof (induction m b mb d f i u arbitrary: u' es rule: enumerate_symbols_loop.induct)
  case (1 m b mb d f i u)
  note run = "1.prems"(1) and readable = "1.prems"(2) and never = "1.prems"(3)
  show ?case
  proof (cases "ucast i = dynsym_section_size d div dynsym_entry_size d")
    case True
    with run show ?thesis
      by (simp add: enumerate_symbols_loop.simps)
  next
    case more: False
    show ?thesis
    proof (cases "sym_at m (symbol_address b d i)")
      case None
      with run more show ?thesis
        by (simp add: enumerate_symbols_loop.simps)
    next
      case (Some symbol)
      show ?thesis
      proof (cases "is_exported_function symbol")
        case False
        with run more Some have nz: "i + 1 \<noteq> 0"
          and rest: "enumerate_symbols_loop m b mb d f (i + 1) u = (Returned, u', es)"
          by (auto simp: enumerate_symbols_loop.simps [of m b mb d f i] split: if_splits)
        from "1.IH"(2) [OF more Some False nz rest readable never] more Some False nz
        show ?thesis
          by (simp add: enumerate_symbols_loop.simps
              [of m b mb d gum_store_address_if_export_name_matches i])
      next
        case True
        let ?x = "export_of mb d symbol"
        from never obtain v where f: "f m (fst ?x) (snd ?x) u = Some (True, v)"
          by blast
        with run more Some True have nz: "i + 1 \<noteq> 0"
          and rest: "emit ?x (enumerate_symbols_loop m b mb d f (i + 1) v) = (Returned, u', es)"
          by (auto simp: enumerate_symbols_loop.simps [of m b mb d f i] split: if_splits)
        from rest obtain es' where
          rest': "enumerate_symbols_loop m b mb d f (i + 1) v = (Returned, u', es')"
          and es: "es = ?x # es'"
          by (auto simp: emit_Returned)
        from readable es obtain s where name: "cstr_at m (fst ?x) = Some s"
          and readable': "\<forall>x \<in> set es'. cstr_at m (fst x) \<noteq> None"
          by auto
        have ih: "enumerate_symbols_loop m b mb d gum_store_address_if_export_name_matches
              (i + 1) ctx =
          (Returned,
           (case find (export_named m (find_symbol_name ctx)) es' of
              None \<Rightarrow> ctx
            | Some x \<Rightarrow> ctx \<lparr> find_result := snd x \<rparr>),
           takeWhile (\<lambda>x. \<not> export_named m (find_symbol_name ctx) x) es' @
           take 1 (dropWhile (\<lambda>x. \<not> export_named m (find_symbol_name ctx) x) es'))"
          using "1.IH"(1) [OF more Some True f refl _ nz rest' readable' never]
          by simp
        show ?thesis
        proof (cases "s = find_symbol_name ctx")
          case True
          with name have g: "gum_store_address_if_export_name_matches m (fst ?x) (snd ?x) ctx
              = Some (False, ctx \<lparr> find_result := snd ?x \<rparr>)"
            by (simp add: gum_store_address_if_export_name_matches_def)
          from True name have "export_named m (find_symbol_name ctx) ?x"
            by (simp add: export_named_def)
          with more Some \<open>is_exported_function symbol\<close> es g show ?thesis
            by (simp add: enumerate_symbols_loop.simps
                [of m b mb d gum_store_address_if_export_name_matches i])
        next
          case False
          with name have g: "gum_store_address_if_export_name_matches m (fst ?x) (snd ?x) ctx
              = Some (True, ctx)"
            by (simp add: gum_store_address_if_export_name_matches_def)
          from False name have "\<not> export_named m (find_symbol_name ctx) ?x"
            by (simp add: export_named_def)
          with more Some \<open>is_exported_function symbol\<close> es nz ih g show ?thesis
            by (simp add: enumerate_symbols_loop.simps
                [of m b mb d gum_store_address_if_export_name_matches i] emit_def)
        qed
      qed
    qed
  qed
qed


text \<open>The ways the first part of the resolver ends, and the system calls made on each.\<close>

lemma find_dynamic_symbols_Inl:
  "find_dynamic_symbols k module_name = Inl (Returned, calls) \<Longrightarrow>
     calls = [] \<or> (\<exists>path. calls = [Sys_open path (- 1)]) \<or>
     (\<exists>path fd n b. fd \<noteq> - 1 \<and> b = sys_mmap k n fd \<and>
        calls = [Sys_open path fd, Sys_lseek fd, Sys_lseek fd, Sys_mmap n fd b] @ beach b n fd)"
  by (auto simp: find_dynamic_symbols_def Let_def beach_def
      split: prod.splits status.splits if_splits option.splits sum.splits)

lemma find_dynamic_symbols_Inr:
  "find_dynamic_symbols k module_name = Inr (mb, b, d, calls, rel) \<Longrightarrow>
     \<exists>path fd n ehdr. fd \<noteq> - 1 \<and> b = sys_mmap k n fd \<and>
        calls = [Sys_open path fd, Sys_lseek fd, Sys_lseek fd, Sys_mmap n fd b] \<and>
        rel = beach b n fd \<and>
        ehdr_at (mem k) b = Some ehdr \<and> e_type ehdr = ET_DYN \<and> dynsym_section_offset d \<noteq> 0"
  by (auto simp: find_dynamic_symbols_def Let_def
      split: prod.splits status.splits if_splits option.splits sum.splits)




text \<open>
  C9. Whenever \<^verbatim>\<open>gum_module_enumerate_exports\<close> returns (whichever exit it takes: module
  not found, \<^verbatim>\<open>open\<close> failed, file not a shared object, no dynamic symbol table, the
  table walked to its end, or the visitor returning FALSE), the system calls it has made are
  none at all, or the one failed \<^verbatim>\<open>open\<close>, or \<^verbatim>\<open>open\<close>, the two \<^verbatim>\<open>lseek\<close>, \<^verbatim>\<open>mmap\<close>,
  then \<^verbatim>\<open>munmap\<close> of the address and length that were mapped and \<^verbatim>\<open>close\<close> of the
  descriptor that was opened. (The kernel does not place a mapping at address 0, which is
  what the code takes for "no mapping".)
\<close>

theorem exports_released:
  assumes "gum_module_enumerate_exports k module_name func u = (Returned, u', exports, calls)"
    and "\<forall>n fd. sys_mmap k n fd \<noteq> 0"
  shows "calls = [] \<or> (\<exists>path. calls = [Sys_open path (- 1)]) \<or>
     (\<exists>path fd n b. fd \<noteq> - 1 \<and>
        calls = [Sys_open path fd, Sys_lseek fd, Sys_lseek fd, Sys_mmap n fd b,
                 Sys_munmap b n, Sys_close fd])"
proof (cases "find_dynamic_symbols k module_name")
  case (Inl r)
  with assms(1) have "find_dynamic_symbols k module_name = Inl (Returned, calls)"
    by (cases r) (simp add: gum_module_enumerate_exports_def)
  from find_dynamic_symbols_Inl [OF this] assms(2) show ?thesis
    by (auto simp: beach_def)
next
  case (Inr r)
  obtain mb b d calls0 rel where r: "r = (mb, b, d, calls0, rel)"
    by (cases r)
  from Inr r assms(1) have calls: "calls = calls0 @ rel"
    by (auto simp: gum_module_enumerate_exports_def split: prod.splits status.splits)
  from find_dynamic_symbols_Inr [OF Inr [unfolded r]] assms(2) calls show ?thesis
    by (auto simp: beach_def)
qed

theorem exports_released_witness:
  "(\<forall>n fd. sys_mmap example_os n fd \<noteq> 0) \<and>
   gum_module_enumerate_exports example_os ''libc.so.6'' continuing_export_visitor () =
     (Returned, (), [(0x10301, 0x7f0000001000), (0x10314, 0x7f0000002000)], example_calls) \<and>
   (example_calls = [] \<or> (\<exists>path. example_calls = [Sys_open path (- 1)]) \<or>
     (\<exists>path fd n b. fd \<noteq> - 1 \<and>
        example_calls = [Sys_open path fd, Sys_lseek fd, Sys_lseek fd, Sys_mmap n fd b,
                 Sys_munmap b n, Sys_close fd]))"
proof -
  have nonnull: "\<forall>n fd. sys_mmap example_os n fd \<noteq> 0"
    by (simp add: example_os_def)
  from exports_released [OF example_exports nonnull] nonnull example_exports
  show ?thesis by blast
qed

text \<open>
  C5. Let \<^verbatim>\<open>gum_module_enumerate_exports\<close>, driven to its end by a visitor that never
  stops, return having emitted a list of exports whose names can be read. Then
  \<^verbatim>\<open>gum_module_find_export_by_name (m, s)\<close> returns the address of the first export of
  that list whose name equals \<^verbatim>\<open>s\<close>, and 0 when there is none; and the enumeration it
  drives emits the exports before that first match and the match, and no more.
\<close>

theorem find_export_is_first_match:
  assumes full: "gum_module_enumerate_exports k module_name f u = (Returned, u', exports, calls)"
    and never: "\<forall>m n a v. \<exists>v'. f m n a v = Some (True, v')"
    and readable: "\<forall>x \<in> set exports. cstr_at (mem k) (fst x) \<noteq> None"
  shows "gum_module_find_export_by_name k module_name symbol_name =
           (Returned, case find (export_named (mem k) symbol_name) exports of
                        None \<Rightarrow> 0 | Some x \<Rightarrow> snd x) \<and>
         fst (snd (snd (gum_module_enumerate_exports k module_name
                 gum_store_address_if_export_name_matches
                 \<lparr> find_result = 0, find_symbol_name = symbol_name \<rparr>))) =
           takeWhile (\<lambda>x. \<not> export_named (mem k) symbol_name x) exports @
           take 1 (dropWhile (\<lambda>x. \<not> export_named (mem k) symbol_name x) exports)"
proof (cases "find_dynamic_symbols k module_name")
  case (Inl r)
  with full have "exports = []" "fst r = Returned"
    by (auto simp: gum_module_enumerate_exports_def split: prod.splits)
  with Inl show ?thesis
    by (cases r)
      (simp add: gum_module_find_export_by_name_def gum_module_enumerate_exports_def)
next
  case (Inr r)
  obtain mb b d calls0 rel where r: "r = (mb, b, d, calls0, rel)"
    by (cases r)
  from Inr r full have loop: "enumerate_symbols_loop (mem k) b mb d f 0 u = (Returned, u', exports)"
    by (auto simp: gum_module_enumerate_exports_def split: prod.splits status.splits)
  let ?ctx = "\<lparr> find_result = 0, find_symbol_name = symbol_name \<rparr>"
  from find_simulation [OF loop readable never, of ?ctx]
  have "enumerate_symbols_loop (mem k) b mb d gum_store_address_if_export_name_matches 0 ?ctx =
       (Returned,
        (case find (export_named (mem k) symbol_name) exports of
           None \<Rightarrow> ?ctx
         | Some x \<Rightarrow> ?ctx \<lparr> find_result := snd x \<rparr>),
        takeWhile (\<lambda>x. \<not> export_named (mem k) symbol_name x) exports @
        take 1 (dropWhile (\<lambda>x. \<not> export_named (mem k) symbol_name x) exports))"
    by simp
  with Inr r show ?thesis
    by (simp add: gum_module_find_export_by_name_def gum_module_enumerate_exports_def
        split: option.splits)
qed

theorem find_export_is_first_match_witness:
  "gum_module_enumerate_exports example_os ''libc.so.6'' continuing_export_visitor () =
     (Returned, (), [(0x10301, 0x7f0000001000), (0x10314, 0x7f0000002000)], example_calls) \<and>
   gum_module_find_export_by_name example_os ''libc.so.6'' ''free''
     = (Returned, 0x7f0000002000) \<and>
   gum_module_find_export_by_name example_os ''libc.so.6'' ''helper'' = (Returned, 0)"
proof -
  have never: "\<forall>m n a v. \<exists>v'. continuing_export_visitor m n a v = Some (True, v')"
    by (simp add: continuing_export_visitor_def)
  have readable: "\<forall>x \<in> set [(0x10301, 0x7f0000001000), (0x10314 :: GumAddress, 0x7f0000002000 :: GumAddress)].
      cstr_at (mem example_os) (fst x) \<noteq> None"
    by (simp add: example_os_def example_memory_def example_strings_def)
  note t = find_export_is_first_match [OF example_exports never readable, THEN conjunct1]
  have names: "export_named (mem example_os) s (a, b) \<longleftrightarrow> example_strings a = Some s" for s a b
    by (simp add: export_named_def example_os_def example_memory_def)
  from t [of "''free''"] t [of "''helper''"] example_exports show ?thesis
    by (simp add: names example_strings_def)
qed









end
